theory Spec2Isabelle
  imports Main "HOL-Library.AList"
begin

section \<open>Values shared by the two source files\<close>

text \<open>
  The development embeds \<^verbatim>\<open>src/docker-client.ts\<close> (the layer facing the container
  engine) and \<^verbatim>\<open>src/generic-container.ts\<close> (the builder, \<^verbatim>\<open>start()\<close> and the started
  handle). Asynchronous calls are awaited one after the other in both files, so a run is
  a sequence of calls on the collaborators; it is modelled by explicit state passing.
\<close>

type_synonym Port = nat
type_synonym PortString = string
type_synonym Host = string
type_synonym Command = string
type_synonym ContainerName = string
type_synonym Dir = string
type_synonym EnvKey = string
type_synonym EnvValue = string
type_synonym BuildContext = string

text \<open>
  A JavaScript object used as a dictionary (\<^verbatim>\<open>Env\<close>, \<^verbatim>\<open>TmpFs\<close>, \<^verbatim>\<open>BuildArgs\<close>, the
  exposed ports and the port bindings of a creation request) is an association list
  with at most one pair for a key: \<^verbatim>\<open>o[k] = v\<close> is \<^const>\<open>AList.update\<close>, which
  replaces the value of a key that is present and appends a new key. The list keeps the
  order in which the keys were first set. JavaScript enumerates keys that are written
  like integers in ascending order instead, so the order of a list is used below only to
  compare two objects that one iteration filled, never as the order of an enumeration.
\<close>

type_synonym Env = "(EnvKey \<times> EnvValue) list"
type_synonym TmpFs = "(Dir \<times> Dir) list"
type_synonym BuildArgs = "(EnvKey \<times> EnvValue) list"

datatype BindMode = rw | ro

record BindMount =
  source :: Dir
  target :: Dir
  bindMode :: BindMode

text \<open>\<^verbatim>\<open>new Duration(60_000, TemporalUnit.MILLISECONDS)\<close> of the node-duration package.\<close>

datatype TemporalUnit = MILLISECONDS | SECONDS

datatype Duration = Duration int TemporalUnit

fun inMilliseconds :: "Duration \<Rightarrow> int" where
  "inMilliseconds (Duration n MILLISECONDS) = n"
| "inMilliseconds (Duration n SECONDS) = n * 1000"

text \<open>
  The errors a run can end with. \<open>Error m\<close> is JavaScript's \<^verbatim>\<open>new Error(m)\<close>, the only
  kind of error the two source files construct, and also what a collaborator throws.
  \<open>TypeError\<close> is what the runtime throws when a method is called on \<^verbatim>\<open>null\<close>. The
  other three constructors are taken from the error taxonomy of the specification, for
  the classes whose source is absent (the port map, the port allocator and the wait
  strategies).
\<close>

datatype error =
  Error string | TypeError string | NotBoundError | PortAllocationError | WaitTimeoutError

subsection \<open>Image references\<close>

text \<open>
  Modelled from the spec: \<^verbatim>\<open>repo-tag.ts\<close> is absent. An image reference is a name and a
  tag, equality is structural (name and tag), and it is written as the pair
  \<^verbatim>\<open>name:tag\<close>. A component is \<open>None\<close> where JavaScript has \<^verbatim>\<open>undefined\<close>, which is
  what destructuring a too short array gives (see \<open>fetchRepoTags\<close>).
\<close>

record RepoTag =
  imageName :: "string option"
  tag :: "string option"

definition equals :: "RepoTag \<Rightarrow> RepoTag \<Rightarrow> bool" where
  "equals a b = (imageName a = imageName b \<and> tag a = tag b)"

definition templateString :: "string option \<Rightarrow> string" where
  "templateString v = (case v of None \<Rightarrow> ''undefined'' | Some s \<Rightarrow> s)"

definition RepoTag_toString :: "RepoTag \<Rightarrow> string" where
  "RepoTag_toString r = templateString (imageName r) @ '':'' @ templateString (tag r)"

subsection \<open>Ports and the port map\<close>

text \<open>\<^verbatim>\<open>port.toString()\<close> of a non-negative integer: its decimal digits.\<close>

definition digitChar :: "nat \<Rightarrow> char" where
  "digitChar d = ''0123456789'' ! d"

fun Number_toString :: "nat \<Rightarrow> string" where
  "Number_toString n =
     (if n < 10 then [digitChar n] else Number_toString (n div 10) @ [digitChar (n mod 10)])"

declare Number_toString.simps [simp del]

text \<open>
  Modelled from the spec: \<^verbatim>\<open>bound-ports.ts\<close> is absent. The port map is a mapping from
  a requested internal port to the host port allocated for it; it iterates in request
  order, and looking up a port that was never requested fails with NotBoundError.
\<close>

type_synonym BoundPorts = "(Port \<times> Port) list"

definition iterator :: "BoundPorts \<Rightarrow> (Port \<times> Port) list" where
  "iterator bp = bp"

definition setBinding :: "Port \<Rightarrow> Port \<Rightarrow> BoundPorts \<Rightarrow> BoundPorts" where
  "setBinding internalPort hostPort bp = AList.update internalPort hostPort bp"

definition getBinding :: "BoundPorts \<Rightarrow> Port \<Rightarrow> error + Port" where
  "getBinding bp p = (case map_of bp p of None \<Rightarrow> Inl NotBoundError | Some h \<Rightarrow> Inr h)"

subsection \<open>What the engine hands back\<close>

text \<open>
  A container is known by the identity the engine assigned to it. Of an image listed by
  the engine only \<^verbatim>\<open>RepoTags\<close> is read; it is \<^verbatim>\<open>null\<close> (\<open>None\<close>) for a dangling image.
  Of an inspect result only \<^verbatim>\<open>name\<close> is read.
\<close>

datatype Container = Container string

record ImageInfo =
  RepoTags :: "string list option"

record InspectResult =
  inspectName :: ContainerName

datatype ContainerState = ContainerState InspectResult

subsection \<open>The creation request\<close>

record PortBinding =
  HostPort :: PortString

record HostConfig =
  PortBindings :: "(PortString \<times> PortBinding list) list"
  Binds :: "string list"
  Tmpfs :: TmpFs

record ContainerCreateOptions =
  createName :: "ContainerName option"
  createImage :: string
  createEnv :: "string list"
  ExposedPorts :: "(PortString \<times> unit) list"
  Cmd :: "Command list"
  createHostConfig :: HostConfig

record CreateOptions =
  optRepoTag :: RepoTag
  optEnv :: Env
  optCmd :: "Command list"
  optBindMounts :: "BindMount list"
  optTmpFs :: TmpFs
  optBoundPorts :: BoundPorts
  optName :: "ContainerName option"

subsection \<open>Wait strategies\<close>

text \<open>
  Modelled from the spec: \<^verbatim>\<open>wait-strategy.ts\<close> and \<^verbatim>\<open>port-check.ts\<close> are absent. The
  source builds the default strategy from a host-port check and an internal-port check;
  any other strategy is supplied by the caller and is known here by a label only.
\<close>

datatype PortCheck = HostPortCheck Host | InternalPortCheck Container

datatype WaitStrategy = HostPortWaitStrategy PortCheck PortCheck | CallerWaitStrategy string

subsection \<open>Stop options\<close>

text \<open>
  \<^verbatim>\<open>OptionalStopOptions\<close> is \<^verbatim>\<open>Partial<StopOptions>\<close>: a key is either missing from the
  caller's object or it holds a value, which may be \<^verbatim>\<open>undefined\<close> (\<open>None\<close>). The
  resolved options hold both keys.
\<close>

datatype 'a key = Missing | Holds "'a option"

record OptionalStopOptions =
  timeoutKey :: "Duration key"
  removeVolumesKey :: "bool key"

record StopOptions =
  timeout :: "Duration option"
  removeVolumes :: "bool option"

text \<open>
  Modelled from the spec: \<^verbatim>\<open>test-container.ts\<close>, which declares the constant, is absent.
  The defaults are a graceful-stop timeout, whose value the specification leaves open
  (the parameter), and remove-volumes false.
\<close>

definition DEFAULT_STOP_OPTIONS :: "Duration \<Rightarrow> StopOptions" where
  "DEFAULT_STOP_OPTIONS gracefulStopTimeout =
     \<lparr>timeout = Some gracefulStopTimeout, removeVolumes = Some False\<rparr>"

datatype StoppedTestContainer = StoppedGenericContainer

section \<open>Collaborators and runs\<close>

text \<open>
  Everything outside the two source files is a collaborator: the dockerode client, the
  containers it hands out, the operating system's facility that hands out a free host
  port, the identifier generator and the readiness polling of a check. A collaborator
  call reads and changes a world \<open>'w\<close> and returns a value or throws.
\<close>

record 'w engine =
  host :: Host
  listImages :: "'w \<Rightarrow> (error + ImageInfo list) \<times> 'w"
  pullImage :: "string \<Rightarrow> 'w \<Rightarrow> (error + unit) \<times> 'w"
  createContainer :: "ContainerCreateOptions \<Rightarrow> 'w \<Rightarrow> (error + Container) \<times> 'w"
  buildImageStream :: "BuildContext \<Rightarrow> BuildArgs \<Rightarrow> string \<Rightarrow> 'w \<Rightarrow> (error + unit) \<times> 'w"
  containerStart :: "Container \<Rightarrow> 'w \<Rightarrow> (error + unit) \<times> 'w"
  containerInspect :: "Container \<Rightarrow> 'w \<Rightarrow> (error + InspectResult) \<times> 'w"
  containerStop :: "Container \<Rightarrow> Duration option \<Rightarrow> 'w \<Rightarrow> (error + unit) \<times> 'w"
  containerRemove :: "Container \<Rightarrow> bool option \<Rightarrow> 'w \<Rightarrow> (error + unit) \<times> 'w"
  claimFreePort :: "'w \<Rightarrow> Port option \<times> 'w"
  pollCheck :: "PortCheck \<Rightarrow> Duration \<Rightarrow> Container \<Rightarrow> ContainerState \<Rightarrow> BoundPorts \<Rightarrow>
                'w \<Rightarrow> bool \<times> 'w"
  callerWaitUntilReady :: "string \<Rightarrow> Duration \<Rightarrow> Container \<Rightarrow> ContainerState \<Rightarrow> BoundPorts \<Rightarrow>
                'w \<Rightarrow> (error + unit) \<times> 'w"
  nextUuid :: "'w \<Rightarrow> string \<times> 'w"

text \<open>
  \<open>pullImage\<close> and \<open>buildImageStream\<close> stand for the dockerode call together with the
  reading of the stream it returns (\<^verbatim>\<open>streamToArray\<close>); \<open>claimFreePort\<close> returns \<open>None\<close>
  when no host port can be claimed, and \<open>pollCheck\<close> tells whether the check became
  ready before the timeout.

  A run keeps, beside the world, the trace of the collaborator calls made so far: each
  call with its arguments and with what it returned or threw.
\<close>

datatype event =
    ListImages
  | PullImage string
  | ClaimFreePort Port
  | CreateContainer ContainerCreateOptions
  | BuildImageStream BuildContext BuildArgs string
  | ContainerStart Container
  | ContainerInspect Container
  | ContainerStop Container "Duration option"
  | ContainerRemove Container "bool option"
  | PollCheck PortCheck Duration Container ContainerState BoundPorts
  | CallerWaitUntilReady string Duration Container ContainerState BoundPorts
  | NextUuid

datatype returned =
    Nothing
  | Images "ImageInfo list"
  | APort Port
  | AContainer Container
  | AnInspectResult InspectResult
  | AUuid string

datatype outcome = Threw error | Returned returned

type_synonym entry = "event \<times> outcome"
type_synonym 'w run = "entry list \<times> 'w"
type_synonym ('w, 'a) action = "'w run \<Rightarrow> (error + 'a) \<times> 'w run"

definition resolve :: "'a \<Rightarrow> ('w, 'a) action" where
  "resolve x = (\<lambda>s. (Inr x, s))"

definition throw :: "error \<Rightarrow> ('w, 'a) action" where
  "throw e = (\<lambda>s. (Inl e, s))"

text \<open>\<^verbatim>\<open>const x = await m; ...\<close>: a rejected promise ends the enclosing function.\<close>

definition await :: "('w, 'a) action \<Rightarrow> ('a \<Rightarrow> ('w, 'b) action) \<Rightarrow> ('w, 'b) action" where
  "await m f = (\<lambda>s. case m s of (Inl e, s') \<Rightarrow> (Inl e, s') | (Inr x, s') \<Rightarrow> f x s')"

definition call :: "event \<Rightarrow> ('a \<Rightarrow> returned) \<Rightarrow> ('w \<Rightarrow> (error + 'a) \<times> 'w) \<Rightarrow> ('w, 'a) action" where
  "call ev shown op = (\<lambda>(tr, w). case op w of
       (Inl e, w') \<Rightarrow> (Inl e, (tr @ [(ev, Threw e)], w'))
     | (Inr x, w') \<Rightarrow> (Inr x, (tr @ [(ev, Returned (shown x))], w')))"

section \<open>docker-client.ts\<close>

text \<open>\<^verbatim>\<open>s.split(":")\<close>: the pieces between the separators, at least one piece.\<close>

fun split :: "char \<Rightarrow> string \<Rightarrow> string list" where
  "split sep [] = [[]]"
| "split sep (c # cs) =
     (if c = sep then [] # split sep cs
      else (case split sep cs of [] \<Rightarrow> [[c]] | piece # pieces \<Rightarrow> (c # piece) # pieces))"

text \<open>\<^verbatim>\<open>const [a, b] = xs\<close> reads \<^verbatim>\<open>xs[0]\<close> and \<^verbatim>\<open>xs[1]\<close>, \<^verbatim>\<open>undefined\<close> past the end.\<close>

definition element :: "'a list \<Rightarrow> nat \<Rightarrow> 'a option" where
  "element xs i = (if i < length xs then Some (xs ! i) else None)"

definition repoTagOfString :: "string \<Rightarrow> RepoTag" where
  "repoTagOfString imageRepoTag =
     (let pieces = split CHR '':'' imageRepoTag
      in \<lparr>imageName = element pieces 0, tag = element pieces 1\<rparr>)"

definition isDanglingImage :: "ImageInfo \<Rightarrow> bool" where
  "isDanglingImage img = (RepoTags img = None)"

text \<open>
  The callback of \<^verbatim>\<open>images.reduce\<close>. \<^verbatim>\<open>image.RepoTags.map\<close> on \<^verbatim>\<open>null\<close> throws a
  TypeError, which ends the reduction and \<^verbatim>\<open>fetchRepoTags\<close>.
\<close>

definition collectRepoTags :: "RepoTag list \<Rightarrow> ImageInfo \<Rightarrow> error + RepoTag list" where
  "collectRepoTags repoTags img =
     (if isDanglingImage img then Inr repoTags
      else (case RepoTags img of
              None \<Rightarrow> Inl (TypeError ''Cannot read properties of null'')
            | Some imageRepoTags \<Rightarrow> Inr (repoTags @ map repoTagOfString imageRepoTags)))"

fun reduce :: "('b \<Rightarrow> 'a \<Rightarrow> error + 'b) \<Rightarrow> 'b \<Rightarrow> 'a list \<Rightarrow> error + 'b" where
  "reduce f acc [] = Inr acc"
| "reduce f acc (x # xs) = (case f acc x of Inl e \<Rightarrow> Inl e | Inr acc' \<Rightarrow> reduce f acc' xs)"

definition fetchRepoTags :: "'w engine \<Rightarrow> ('w, RepoTag list) action" where
  "fetchRepoTags eng =
     await (call ListImages Images (listImages eng))
       (\<lambda>images. case reduce collectRepoTags [] images of
                    Inl e \<Rightarrow> throw e
                  | Inr repoTags \<Rightarrow> resolve repoTags)"

text \<open>
  The references of the images that have tags, in the order of the listing: what
  \<open>fetchRepoTags\<close> returns for a listing (lemma \<open>reduce_collectRepoTags\<close>).
\<close>

definition repoTagsOfImages :: "ImageInfo list \<Rightarrow> RepoTag list" where
  "repoTagsOfImages images =
     concat (map (\<lambda>img. case RepoTags img of
                          None \<Rightarrow> []
                        | Some imageRepoTags \<Rightarrow> map repoTagOfString imageRepoTags) images)"

definition getHost :: "'w engine \<Rightarrow> Host" where
  "getHost eng = host eng"

definition client_pull :: "'w engine \<Rightarrow> RepoTag \<Rightarrow> ('w, unit) action" where
  "client_pull eng repoTag =
     call (PullImage (RepoTag_toString repoTag)) (\<lambda>_. Nothing)
       (pullImage eng (RepoTag_toString repoTag))"

text \<open>
  \<^verbatim>\<open>Object.entries\<close> enumerates first the keys that are array indices (the decimal
  string, without leading zeros, of an integer below \<open>2^32 - 1\<close>) in ascending order, then
  the other keys in the order in which they were set.
\<close>

definition isDigit :: "char \<Rightarrow> bool" where
  "isDigit c = (48 \<le> (of_char c :: nat) \<and> (of_char c :: nat) \<le> 57)"

definition decimal :: "string \<Rightarrow> nat" where
  "decimal s = foldl (\<lambda>n c. 10 * n + ((of_char c :: nat) - 48)) 0 s"

definition arrayIndex :: "string \<Rightarrow> nat option" where
  "arrayIndex s =
     (case s of
        [] \<Rightarrow> None
      | c # cs \<Rightarrow>
          if list_all isDigit s \<and> (cs = [] \<or> c \<noteq> CHR ''0'') \<and> decimal s < 2 ^ 32 - 1
          then Some (decimal s) else None)"

definition Object_entries :: "(string \<times> 'v) list \<Rightarrow> (string \<times> 'v) list" where
  "Object_entries obj =
     map snd (sort_key fst
       (concat (map (\<lambda>(k, v). case arrayIndex k of None \<Rightarrow> [] | Some n \<Rightarrow> [(n, (k, v))]) obj))) @
     filter (\<lambda>(k, v). arrayIndex k = None) obj"

definition getEnv :: "Env \<Rightarrow> string list" where
  "getEnv e =
     foldl (\<lambda>dockerodeEnvironment (k, v). dockerodeEnvironment @ [k @ ''='' @ v]) []
       (Object_entries e)"

definition getExposedPorts :: "BoundPorts \<Rightarrow> (PortString \<times> unit) list" where
  "getExposedPorts boundPorts =
     foldl (\<lambda>dockerodeExposedPorts (internalPort, hostPort).
              AList.update (Number_toString internalPort) () dockerodeExposedPorts)
       [] (iterator boundPorts)"

definition getPortBindings :: "BoundPorts \<Rightarrow> (PortString \<times> PortBinding list) list" where
  "getPortBindings boundPorts =
     foldl (\<lambda>dockerodePortBindings (internalPort, hostPort).
              AList.update (Number_toString internalPort)
                [\<lparr>HostPort = Number_toString hostPort\<rparr>] dockerodePortBindings)
       [] (iterator boundPorts)"

definition bindModeString :: "BindMode \<Rightarrow> string" where
  "bindModeString m = (case m of rw \<Rightarrow> ''rw'' | ro \<Rightarrow> ''ro'')"

definition getBindMounts :: "BindMount list \<Rightarrow> string list" where
  "getBindMounts bindMounts =
     map (\<lambda>b. source b @ '':'' @ target b @ '':'' @ bindModeString (bindMode b)) bindMounts"

definition creationRequest :: "CreateOptions \<Rightarrow> ContainerCreateOptions" where
  "creationRequest options =
     \<lparr>createName = optName options,
      createImage = RepoTag_toString (optRepoTag options),
      createEnv = getEnv (optEnv options),
      ExposedPorts = getExposedPorts (optBoundPorts options),
      Cmd = optCmd options,
      createHostConfig =
        \<lparr>PortBindings = getPortBindings (optBoundPorts options),
         Binds = getBindMounts (optBindMounts options),
         Tmpfs = optTmpFs options\<rparr>\<rparr>"

definition client_create :: "'w engine \<Rightarrow> CreateOptions \<Rightarrow> ('w, Container) action" where
  "client_create eng options =
     call (CreateContainer (creationRequest options)) AContainer
       (createContainer eng (creationRequest options))"

definition client_start :: "'w engine \<Rightarrow> Container \<Rightarrow> ('w, unit) action" where
  "client_start eng container =
     call (ContainerStart container) (\<lambda>_. Nothing) (containerStart eng container)"

definition client_buildImage ::
    "'w engine \<Rightarrow> RepoTag \<Rightarrow> BuildContext \<Rightarrow> BuildArgs \<Rightarrow> ('w, unit) action" where
  "client_buildImage eng repoTag buildContext buildArgs =
     call (BuildImageStream buildContext buildArgs (RepoTag_toString repoTag)) (\<lambda>_. Nothing)
       (buildImageStream eng buildContext buildArgs (RepoTag_toString repoTag))"

section \<open>The port allocator and the wait step\<close>

text \<open>
  Modelled from the spec: \<^verbatim>\<open>port-binder.ts\<close> is absent. For each requested internal
  port, in request order, one free host port is claimed from the operating system and
  the pair is recorded in the port map; when a port cannot be claimed the whole binding
  fails with PortAllocationError and no map is returned. That host ports differ is left
  to the operating system, as the specification says.
\<close>

definition claimPort :: "'w engine \<Rightarrow> Port \<Rightarrow> ('w, Port) action" where
  "claimPort eng internalPort =
     call (ClaimFreePort internalPort) APort
       (\<lambda>w. case claimFreePort eng w of
               (None, w') \<Rightarrow> (Inl PortAllocationError, w')
             | (Some hostPort, w') \<Rightarrow> (Inr hostPort, w'))"

fun bindPorts :: "'w engine \<Rightarrow> Port list \<Rightarrow> BoundPorts \<Rightarrow> ('w, BoundPorts) action" where
  "bindPorts eng [] boundPorts s = resolve boundPorts s"
| "bindPorts eng (p # ps) boundPorts s =
     (case claimPort eng p s of
        (Inl e, s') \<Rightarrow> (Inl e, s')
      | (Inr hostPort, s') \<Rightarrow> bindPorts eng ps (setBinding p hostPort boundPorts) s')"

definition PortBinder_bind :: "'w engine \<Rightarrow> Port list \<Rightarrow> ('w, BoundPorts) action" where
  "PortBinder_bind eng requestedPorts = bindPorts eng requestedPorts []"

text \<open>
  Modelled from the spec: \<^verbatim>\<open>wait-strategy.ts\<close> is absent. Polling one check until it
  holds or the startup timeout has passed is one collaborator call, which reports
  whether the check became ready; a check that did not fails with WaitTimeoutError. The
  composite host and internal strategy needs both checks to succeed. A strategy of the
  caller's is called as it is.
\<close>

definition pollUntilReady ::
    "'w engine \<Rightarrow> PortCheck \<Rightarrow> Duration \<Rightarrow> Container \<Rightarrow> ContainerState \<Rightarrow> BoundPorts \<Rightarrow>
     ('w, unit) action" where
  "pollUntilReady eng check startupTimeout container containerState boundPorts =
     call (PollCheck check startupTimeout container containerState boundPorts) (\<lambda>_. Nothing)
       (\<lambda>w. case pollCheck eng check startupTimeout container containerState boundPorts w of
               (True, w') \<Rightarrow> (Inr (), w')
             | (False, w') \<Rightarrow> (Inl WaitTimeoutError, w'))"

definition waitUntilReady ::
    "'w engine \<Rightarrow> WaitStrategy \<Rightarrow> Duration \<Rightarrow> Container \<Rightarrow> ContainerState \<Rightarrow> BoundPorts \<Rightarrow>
     ('w, unit) action" where
  "waitUntilReady eng strategy startupTimeout container containerState boundPorts =
     (case strategy of
        HostPortWaitStrategy hostPortCheck internalPortCheck \<Rightarrow>
          await (pollUntilReady eng hostPortCheck startupTimeout container containerState boundPorts)
            (\<lambda>_. pollUntilReady eng internalPortCheck startupTimeout container containerState
                    boundPorts)
      | CallerWaitStrategy label \<Rightarrow>
          call (CallerWaitUntilReady label startupTimeout container containerState boundPorts)
            (\<lambda>_. Nothing)
            (callerWaitUntilReady eng label startupTimeout container containerState boundPorts))"

section \<open>generic-container.ts\<close>

subsection \<open>The builder\<close>

record GenericContainer =
  repoTag :: RepoTag
  env :: Env
  ports :: "Port list"
  cmd :: "Command list"
  bindMounts :: "BindMount list"
  name :: "ContainerName option"
  tmpFs :: TmpFs
  waitStrategy :: "WaitStrategy option"
  startupTimeout :: Duration

text \<open>\<^verbatim>\<open>new GenericContainer(image, tag = "latest")\<close>; \<open>None\<close> is an omitted tag.\<close>

definition newGenericContainer :: "string \<Rightarrow> string option \<Rightarrow> GenericContainer" where
  "newGenericContainer img tg =
     \<lparr>repoTag = \<lparr>imageName = Some img, tag = Some (case tg of None \<Rightarrow> ''latest'' | Some t \<Rightarrow> t)\<rparr>,
      env = [], ports = [], cmd = [], bindMounts = [], name = None, tmpFs = [],
      waitStrategy = None, startupTimeout = Duration 60000 MILLISECONDS\<rparr>"

definition withCmd :: "Command list \<Rightarrow> GenericContainer \<Rightarrow> GenericContainer" where
  "withCmd c gc = gc\<lparr>cmd := c\<rparr>"

definition withName :: "ContainerName \<Rightarrow> GenericContainer \<Rightarrow> GenericContainer" where
  "withName n gc = gc\<lparr>name := Some n\<rparr>"

definition withEnv :: "EnvKey \<Rightarrow> EnvValue \<Rightarrow> GenericContainer \<Rightarrow> GenericContainer" where
  "withEnv k v gc = gc\<lparr>env := AList.update k v (env gc)\<rparr>"

definition withTmpFs :: "TmpFs \<Rightarrow> GenericContainer \<Rightarrow> GenericContainer" where
  "withTmpFs t gc = gc\<lparr>tmpFs := t\<rparr>"

definition withExposedPorts :: "Port list \<Rightarrow> GenericContainer \<Rightarrow> GenericContainer" where
  "withExposedPorts ps gc = gc\<lparr>ports := ps\<rparr>"

definition withBindMount :: "Dir \<Rightarrow> Dir \<Rightarrow> BindMode option \<Rightarrow> GenericContainer \<Rightarrow> GenericContainer" where
  "withBindMount src tgt mode gc =
     gc\<lparr>bindMounts := bindMounts gc @
           [\<lparr>source = src, target = tgt, bindMode = (case mode of None \<Rightarrow> rw | Some m \<Rightarrow> m)\<rparr>]\<rparr>"

definition withStartupTimeout :: "Duration \<Rightarrow> GenericContainer \<Rightarrow> GenericContainer" where
  "withStartupTimeout d gc = gc\<lparr>startupTimeout := d\<rparr>"

definition withWaitStrategy :: "WaitStrategy \<Rightarrow> GenericContainer \<Rightarrow> GenericContainer" where
  "withWaitStrategy ws gc = gc\<lparr>waitStrategy := Some ws\<rparr>"

text \<open>A chain of configuration calls on a builder, oldest call first.\<close>

datatype configuration =
    WithCmd "Command list"
  | WithName ContainerName
  | WithEnv EnvKey EnvValue
  | WithTmpFs TmpFs
  | WithExposedPorts "Port list"
  | WithBindMount Dir Dir "BindMode option"
  | WithStartupTimeout Duration
  | WithWaitStrategy WaitStrategy

fun configure :: "configuration \<Rightarrow> GenericContainer \<Rightarrow> GenericContainer" where
  "configure (WithCmd c) gc = withCmd c gc"
| "configure (WithName n) gc = withName n gc"
| "configure (WithEnv k v) gc = withEnv k v gc"
| "configure (WithTmpFs t) gc = withTmpFs t gc"
| "configure (WithExposedPorts ps) gc = withExposedPorts ps gc"
| "configure (WithBindMount src tgt mode) gc = withBindMount src tgt mode gc"
| "configure (WithStartupTimeout d) gc = withStartupTimeout d gc"
| "configure (WithWaitStrategy ws) gc = withWaitStrategy ws gc"

definition configured :: "configuration list \<Rightarrow> GenericContainer \<Rightarrow> GenericContainer" where
  "configured calls gc = foldl (\<lambda>g c. configure c g) gc calls"

subsection \<open>start()\<close>

record StartedGenericContainer =
  startedContainer :: Container
  startedHost :: Host
  startedBoundPorts :: BoundPorts
  startedName :: ContainerName

definition hasRepoTagLocally :: "'w engine \<Rightarrow> GenericContainer \<Rightarrow> ('w, bool) action" where
  "hasRepoTagLocally eng gc =
     await (fetchRepoTags eng)
       (\<lambda>repoTags. resolve (list_ex (\<lambda>r. equals r (repoTag gc)) repoTags))"

definition getWaitStrategy :: "'w engine \<Rightarrow> GenericContainer \<Rightarrow> Container \<Rightarrow> WaitStrategy" where
  "getWaitStrategy eng gc container =
     (case waitStrategy gc of
        Some ws \<Rightarrow> ws
      | None \<Rightarrow> HostPortWaitStrategy (HostPortCheck (getHost eng)) (InternalPortCheck container))"

definition waitForContainer ::
    "'w engine \<Rightarrow> GenericContainer \<Rightarrow> Container \<Rightarrow> ContainerState \<Rightarrow> BoundPorts \<Rightarrow>
     ('w, unit) action" where
  "waitForContainer eng gc container containerState boundPorts =
     waitUntilReady eng (getWaitStrategy eng gc container) (startupTimeout gc)
       container containerState boundPorts"

definition inspect :: "'w engine \<Rightarrow> Container \<Rightarrow> ('w, InspectResult) action" where
  "inspect eng container =
     call (ContainerInspect container) AnInspectResult (containerInspect eng container)"

text \<open>The first statement of \<^verbatim>\<open>start()\<close>: pull the image unless it is known locally.\<close>

definition pullIfAbsent :: "'w engine \<Rightarrow> GenericContainer \<Rightarrow> ('w, unit) action" where
  "pullIfAbsent eng gc =
     await (hasRepoTagLocally eng gc)
       (\<lambda>isLocal. if \<not> isLocal then client_pull eng (repoTag gc) else resolve ())"

text \<open>
  The statements of \<^verbatim>\<open>start()\<close> after the first one: bind the ports, create, start,
  inspect, wait, return the handle.
\<close>

definition provision :: "'w engine \<Rightarrow> GenericContainer \<Rightarrow> ('w, StartedGenericContainer) action" where
  "provision eng gc =
     await (PortBinder_bind eng (ports gc)) (\<lambda>boundPorts.
     await (client_create eng
              \<lparr>optRepoTag = repoTag gc, optEnv = env gc, optCmd = cmd gc,
               optBindMounts = bindMounts gc, optTmpFs = tmpFs gc,
               optBoundPorts = boundPorts, optName = name gc\<rparr>) (\<lambda>container.
     await (client_start eng container) (\<lambda>_.
     await (inspect eng container) (\<lambda>inspectResult.
     await (waitForContainer eng gc container (ContainerState inspectResult) boundPorts) (\<lambda>_.
     resolve \<lparr>startedContainer = container, startedHost = getHost eng,
              startedBoundPorts = boundPorts,
              startedName = inspectName inspectResult\<rparr>)))))"

definition start :: "'w engine \<Rightarrow> GenericContainer \<Rightarrow> ('w, StartedGenericContainer) action" where
  "start eng gc =
     await (pullIfAbsent eng gc) (\<lambda>_.
     await (PortBinder_bind eng (ports gc)) (\<lambda>boundPorts.
     await (client_create eng
              \<lparr>optRepoTag = repoTag gc, optEnv = env gc, optCmd = cmd gc,
               optBindMounts = bindMounts gc, optTmpFs = tmpFs gc,
               optBoundPorts = boundPorts, optName = name gc\<rparr>) (\<lambda>container.
     await (client_start eng container) (\<lambda>_.
     await (inspect eng container) (\<lambda>inspectResult.
     await (waitForContainer eng gc container (ContainerState inspectResult) boundPorts) (\<lambda>_.
     resolve \<lparr>startedContainer = container, startedHost = getHost eng,
              startedBoundPorts = boundPorts,
              startedName = inspectName inspectResult\<rparr>))))))"

subsection \<open>The image-build builder\<close>

text \<open>
  The builder keeps the identifier generator it was constructed with:
  \<^verbatim>\<open>constructor(context, uuid = new RandomUuid())\<close>. \<open>None\<close> is an omitted generator; the
  generator of \<^verbatim>\<open>RandomUuid\<close> (\<^verbatim>\<open>uuid.ts\<close>, absent) is \<open>nextUuid\<close> of the collaborators.
\<close>

record 'w GenericContainerBuilder =
  buildContext :: BuildContext
  buildArgs :: BuildArgs
  uuid :: "'w \<Rightarrow> string \<times> 'w"

definition newGenericContainerBuilder ::
    "'w engine \<Rightarrow> BuildContext \<Rightarrow> ('w \<Rightarrow> string \<times> 'w) option \<Rightarrow> 'w GenericContainerBuilder" where
  "newGenericContainerBuilder eng ctx generator =
     \<lparr>buildContext = ctx, buildArgs = [],
      uuid = (case generator of None \<Rightarrow> nextUuid eng | Some g \<Rightarrow> g)\<rparr>"

definition fromDockerfile :: "'w engine \<Rightarrow> BuildContext \<Rightarrow> 'w GenericContainerBuilder" where
  "fromDockerfile eng ctx = newGenericContainerBuilder eng ctx None"

definition withBuildArg ::
    "string \<Rightarrow> string \<Rightarrow> 'w GenericContainerBuilder \<Rightarrow> 'w GenericContainerBuilder" where
  "withBuildArg k v b = b\<lparr>buildArgs := AList.update k v (buildArgs b)\<rparr>"

definition generate :: "'w GenericContainerBuilder \<Rightarrow> ('w, string) action" where
  "generate b = call NextUuid AUuid (\<lambda>w. case uuid b w of (u, w') \<Rightarrow> (Inr u, w'))"

definition build :: "'w engine \<Rightarrow> 'w GenericContainerBuilder \<Rightarrow> ('w, GenericContainer) action" where
  "build eng b =
     await (generate b) (\<lambda>img.
     await (generate b) (\<lambda>tg.
     await (client_buildImage eng \<lparr>imageName = Some img, tag = Some tg\<rparr>
              (buildContext b) (buildArgs b)) (\<lambda>_.
     await (hasRepoTagLocally eng (newGenericContainer img (Some tg))) (\<lambda>listed.
     if \<not> listed then throw (Error ''Failed to build image'')
     else resolve (newGenericContainer img (Some tg))))))"

subsection \<open>The started handle\<close>

definition resolvedOptions :: "StopOptions \<Rightarrow> OptionalStopOptions \<Rightarrow> StopOptions" where
  "resolvedOptions defaults options =
     \<lparr>timeout = (case timeoutKey options of Missing \<Rightarrow> timeout defaults | Holds v \<Rightarrow> v),
      removeVolumes =
        (case removeVolumesKey options of Missing \<Rightarrow> removeVolumes defaults | Holds v \<Rightarrow> v)\<rparr>"

text \<open>
  \<^verbatim>\<open>DEFAULT_STOP_OPTIONS\<close> is declared in \<^verbatim>\<open>test-container.ts\<close>, which is absent, so the
  defaults are a parameter of \<open>stop\<close>; \<open>DEFAULT_STOP_OPTIONS\<close> above gives them as the
  specification does.
\<close>

definition stop ::
    "'w engine \<Rightarrow> StopOptions \<Rightarrow> StartedGenericContainer \<Rightarrow> OptionalStopOptions \<Rightarrow>
     ('w, StoppedTestContainer) action" where
  "stop eng defaults h options =
     (let resolved = resolvedOptions defaults options in
      await (call (ContainerStop (startedContainer h) (timeout resolved)) (\<lambda>_. Nothing)
               (containerStop eng (startedContainer h) (timeout resolved))) (\<lambda>_.
      await (call (ContainerRemove (startedContainer h) (removeVolumes resolved)) (\<lambda>_. Nothing)
               (containerRemove eng (startedContainer h) (removeVolumes resolved))) (\<lambda>_.
      resolve StoppedGenericContainer)))"

definition getContainerIpAddress :: "StartedGenericContainer \<Rightarrow> Host" where
  "getContainerIpAddress h = startedHost h"

definition getMappedPort :: "StartedGenericContainer \<Rightarrow> Port \<Rightarrow> error + Port" where
  "getMappedPort h port = getBinding (startedBoundPorts h) port"

definition getName :: "StartedGenericContainer \<Rightarrow> ContainerName" where
  "getName h = startedName h"

section \<open>The run of an orchestration, as the specification lists it\<close>

text \<open>
  The calls of one successful \<^verbatim>\<open>start()\<close>, in the order of the specification: list
  the images, pull when the image is not listed, claim a host port for each requested
  port, create, start, inspect, wait. The values the collaborators returned are the
  parameters. These definitions follow the specification; the theorems compare the
  runs of \<open>start\<close> with them.
\<close>

definition claimed :: "Port list \<Rightarrow> Port list \<Rightarrow> entry list" where
  "claimed ps hs = map (\<lambda>(p, h). (ClaimFreePort p, Returned (APort h))) (zip ps hs)"

definition boundPortsOf :: "Port list \<Rightarrow> Port list \<Rightarrow> BoundPorts" where
  "boundPortsOf ps hs = foldl (\<lambda>bp (p, h). setBinding p h bp) [] (zip ps hs)"

definition waitSteps ::
    "WaitStrategy \<Rightarrow> Duration \<Rightarrow> Container \<Rightarrow> ContainerState \<Rightarrow> BoundPorts \<Rightarrow> entry list" where
  "waitSteps strategy t c cs bp =
     (case strategy of
        HostPortWaitStrategy hc ic \<Rightarrow>
          [(PollCheck hc t c cs bp, Returned Nothing), (PollCheck ic t c cs bp, Returned Nothing)]
      | CallerWaitStrategy label \<Rightarrow> [(CallerWaitUntilReady label t c cs bp, Returned Nothing)])"

definition requestOf :: "GenericContainer \<Rightarrow> BoundPorts \<Rightarrow> ContainerCreateOptions" where
  "requestOf gc bp =
     creationRequest
       \<lparr>optRepoTag = repoTag gc, optEnv = env gc, optCmd = cmd gc,
        optBindMounts = bindMounts gc, optTmpFs = tmpFs gc,
        optBoundPorts = bp, optName = name gc\<rparr>"

definition orchestrationSteps ::
    "'w engine \<Rightarrow> GenericContainer \<Rightarrow> ImageInfo list \<Rightarrow> Port list \<Rightarrow> Container \<Rightarrow> InspectResult \<Rightarrow>
     entry list" where
  "orchestrationSteps eng gc images hostPorts container inspectResult =
     [(ListImages, Returned (Images images))] @
     (if list_ex (\<lambda>r. equals r (repoTag gc)) (repoTagsOfImages images) then []
      else [(PullImage (RepoTag_toString (repoTag gc)), Returned Nothing)]) @
     claimed (ports gc) hostPorts @
     [(CreateContainer (requestOf gc (boundPortsOf (ports gc) hostPorts)),
         Returned (AContainer container)),
      (ContainerStart container, Returned Nothing),
      (ContainerInspect container, Returned (AnInspectResult inspectResult))] @
     waitSteps (getWaitStrategy eng gc container) (startupTimeout gc) container
       (ContainerState inspectResult) (boundPortsOf (ports gc) hostPorts)"

definition resolveSteps :: "GenericContainer \<Rightarrow> ImageInfo list \<Rightarrow> entry list" where
  "resolveSteps gc images =
     [(ListImages, Returned (Images images))] @
     (if list_ex (\<lambda>r. equals r (repoTag gc)) (repoTagsOfImages images) then []
      else [(PullImage (RepoTag_toString (repoTag gc)), Returned Nothing)])"

definition handleOf :: "'w engine \<Rightarrow> GenericContainer \<Rightarrow> Port list \<Rightarrow> Container \<Rightarrow> InspectResult \<Rightarrow>
    StartedGenericContainer" where
  "handleOf eng gc hostPorts container inspectResult =
     \<lparr>startedContainer = container, startedHost = host eng,
      startedBoundPorts = boundPortsOf (ports gc) hostPorts,
      startedName = inspectName inspectResult\<rparr>"

text \<open>The calls of an orchestration after the image has been resolved.\<close>

definition afterResolve ::
    "'w engine \<Rightarrow> GenericContainer \<Rightarrow> Port list \<Rightarrow> Container \<Rightarrow> InspectResult \<Rightarrow> entry list" where
  "afterResolve eng gc hs c ir =
     claimed (ports gc) hs @
     [(CreateContainer (requestOf gc (boundPortsOf (ports gc) hs)),
         Returned (AContainer c)),
      (ContainerStart c, Returned Nothing),
      (ContainerInspect c, Returned (AnInspectResult ir))] @
     waitSteps (getWaitStrategy eng gc c) (startupTimeout gc) c
       (ContainerState ir) (boundPortsOf (ports gc) hs)"

text \<open>
  What a chain of configuration calls set explicitly, oldest first, and the startup
  timeouts that the wait calls of a trace were given.
\<close>

definition strategiesSet :: "configuration list \<Rightarrow> WaitStrategy list" where
  "strategiesSet calls = concat (map (\<lambda>c. case c of WithWaitStrategy ws \<Rightarrow> [ws] | _ \<Rightarrow> []) calls)"

definition timeoutsSet :: "configuration list \<Rightarrow> Duration list" where
  "timeoutsSet calls = concat (map (\<lambda>c. case c of WithStartupTimeout d \<Rightarrow> [d] | _ \<Rightarrow> []) calls)"

definition waitTimeouts :: "entry list \<Rightarrow> Duration list" where
  "waitTimeouts tr =
     concat (map (\<lambda>(ev, out). case ev of
                    PollCheck check t c cs bp \<Rightarrow> [t]
                  | CallerWaitUntilReady label t c cs bp \<Rightarrow> [t]
                  | _ \<Rightarrow> []) tr)"

section \<open>Concrete collaborators\<close>

text \<open>
  An engine that lists one tagged and one dangling image, hands out the host ports
  32768, 32769, ... and finds every check ready; and variants of it in which one
  collaborator fails.
\<close>

definition demoImages :: "ImageInfo list" where
  "demoImages = [\<lparr>RepoTags = Some [''redis:5'']\<rparr>, \<lparr>RepoTags = None\<rparr>]"

definition demoEngine :: "nat engine" where
  "demoEngine =
     \<lparr>host = ''localhost'',
      listImages = (\<lambda>w. (Inr demoImages, w)),
      pullImage = (\<lambda>ref w. (Inr (), w)),
      createContainer = (\<lambda>request w. (Inr (Container ''c1''), w)),
      buildImageStream = (\<lambda>c args t w. (Inr (), w)),
      containerStart = (\<lambda>c w. (Inr (), w)),
      containerInspect = (\<lambda>c w. (Inr \<lparr>inspectName = ''/web''\<rparr>, w)),
      containerStop = (\<lambda>c t w. (Inr (), w)),
      containerRemove = (\<lambda>c v w. (Inr (), w)),
      claimFreePort = (\<lambda>w. (Some (32768 + w), Suc w)),
      pollCheck = (\<lambda>check t c cs bp w. (True, w)),
      callerWaitUntilReady = (\<lambda>label t c cs bp w. (Inr (), w)),
      nextUuid = (\<lambda>w. (replicate (Suc w) CHR ''a'', Suc w))\<rparr>"

definition failingCreate :: "nat engine" where
  "failingCreate =
     demoEngine\<lparr>createContainer := (\<lambda>request w. (Inl (Error ''no such image''), w))\<rparr>"

definition demoContainer :: GenericContainer where
  "demoContainer = configured [WithExposedPorts [80, 443]] (newGenericContainer ''redis'' None)"

definition demoBoundPorts :: BoundPorts where
  "demoBoundPorts = [(80, 32768), (443, 32769)]"

definition demoHandle :: StartedGenericContainer where
  "demoHandle =
     \<lparr>startedContainer = Container ''c1'', startedHost = ''localhost'',
      startedBoundPorts = demoBoundPorts, startedName = ''/web''\<rparr>"

definition demoRequest :: ContainerCreateOptions where
  "demoRequest =
     \<lparr>createName = None, createImage = ''redis:latest'', createEnv = [],
      ExposedPorts = [(''80'', ()), (''443'', ())], Cmd = [],
      createHostConfig =
        \<lparr>PortBindings = [(''80'', [\<lparr>HostPort = ''32768''\<rparr>]), (''443'', [\<lparr>HostPort = ''32769''\<rparr>])],
         Binds = [], Tmpfs = []\<rparr>\<rparr>"

definition demoTrace :: "entry list" where
  "demoTrace =
     [(ListImages, Returned (Images demoImages)),
      (PullImage ''redis:latest'', Returned Nothing),
      (ClaimFreePort 80, Returned (APort 32768)),
      (ClaimFreePort 443, Returned (APort 32769)),
      (CreateContainer demoRequest, Returned (AContainer (Container ''c1''))),
      (ContainerStart (Container ''c1''), Returned Nothing),
      (ContainerInspect (Container ''c1''), Returned (AnInspectResult \<lparr>inspectName = ''/web''\<rparr>)),
      (PollCheck (HostPortCheck ''localhost'') (Duration 60000 MILLISECONDS) (Container ''c1'')
         (ContainerState \<lparr>inspectName = ''/web''\<rparr>) demoBoundPorts, Returned Nothing),
      (PollCheck (InternalPortCheck (Container ''c1'')) (Duration 60000 MILLISECONDS)
         (Container ''c1'') (ContainerState \<lparr>inspectName = ''/web''\<rparr>) demoBoundPorts,
       Returned Nothing)]"

definition timedTrace :: "entry list" where
  "timedTrace =
     take 7 demoTrace @
     [(PollCheck (HostPortCheck ''localhost'') (Duration 5 SECONDS) (Container ''c1'')
         (ContainerState \<lparr>inspectName = ''/web''\<rparr>) demoBoundPorts, Returned Nothing),
      (PollCheck (InternalPortCheck (Container ''c1'')) (Duration 5 SECONDS)
         (Container ''c1'') (ContainerState \<lparr>inspectName = ''/web''\<rparr>) demoBoundPorts,
       Returned Nothing)]"

definition failedCreateTrace :: "entry list" where
  "failedCreateTrace =
     [(ListImages, Returned (Images demoImages)),
      (PullImage ''redis:latest'', Returned Nothing),
      (ClaimFreePort 80, Returned (APort 32768)),
      (ClaimFreePort 443, Returned (APort 32769)),
      (CreateContainer demoRequest, Threw (Error ''no such image''))]"


definition demoBuilder :: "nat GenericContainerBuilder" where
  "demoBuilder = withBuildArg ''VERSION'' ''1'' (fromDockerfile demoEngine ''./app'')"

definition repeatingBuilder :: "nat GenericContainerBuilder" where
  "repeatingBuilder = newGenericContainerBuilder demoEngine ''./app'' (Some (\<lambda>w. (''x'', w)))"

definition listingRepeated :: "nat engine" where
  "listingRepeated = demoEngine\<lparr>listImages := (\<lambda>w. (Inr [\<lparr>RepoTags = Some [''x:x'']\<rparr>], w))\<rparr>"

definition repeatedTrace :: "entry list" where
  "repeatedTrace =
     [(NextUuid, Returned (AUuid ''x'')), (NextUuid, Returned (AUuid ''x'')),
      (BuildImageStream ''./app'' [] ''x:x'', Returned Nothing),
      (ListImages, Returned (Images [\<lparr>RepoTags = Some [''x:x'']\<rparr>]))]"

definition localContainer :: GenericContainer where
  "localContainer = configured [WithExposedPorts [80, 443]] (newGenericContainer ''redis'' (Some ''5''))"

definition failingPull :: "nat engine" where
  "failingPull = demoEngine\<lparr>pullImage := (\<lambda>ref w. (Inl (Error ''pull access denied''), Suc w))\<rparr>"

definition timedContainer :: GenericContainer where
  "timedContainer =
     configured [WithExposedPorts [80, 443], WithStartupTimeout (Duration 5 SECONDS)]
       (newGenericContainer ''redis'' None)"

definition failingRemove :: "nat engine" where
  "failingRemove =
     demoEngine\<lparr>containerRemove := (\<lambda>c v w. (Inl (Error ''removal in progress''), Suc w))\<rparr>"

definition countingStop :: "nat engine" where
  "countingStop =
     demoEngine\<lparr>containerStop := (\<lambda>c t w. (Inr (), w + 10)),
                containerRemove := (\<lambda>c v w. (Inr (), w + 100))\<rparr>"

definition failingBuild :: "nat engine" where
  "failingBuild =
     demoEngine\<lparr>buildImageStream := (\<lambda>c args t w. (Inl (Error ''Failed to build image''), w))\<rparr>"

definition listingBuilt :: "nat engine" where
  "listingBuilt = demoEngine\<lparr>listImages := (\<lambda>w. (Inr [\<lparr>RepoTags = Some [''a:aa'']\<rparr>], w))\<rparr>"

definition failingStop :: "nat engine" where
  "failingStop = demoEngine\<lparr>containerStop := (\<lambda>c t w. (Inl (Error ''no such container''), w))\<rparr>"

definition unlistedTrace :: "entry list" where
  "unlistedTrace =
     [(NextUuid, Returned (AUuid ''a'')), (NextUuid, Returned (AUuid ''aa'')),
      (BuildImageStream ''./app'' [(''VERSION'', ''1'')] ''a:aa'', Returned Nothing),
      (ListImages, Returned (Images demoImages))]"

definition failedBuildTrace :: "entry list" where
  "failedBuildTrace =
     [(NextUuid, Returned (AUuid ''a'')), (NextUuid, Returned (AUuid ''aa'')),
      (BuildImageStream ''./app'' [(''VERSION'', ''1'')] ''a:aa'',
       Threw (Error ''Failed to build image''))]"

definition listedTrace :: "entry list" where
  "listedTrace =
     [(NextUuid, Returned (AUuid ''a'')), (NextUuid, Returned (AUuid ''aa'')),
      (BuildImageStream ''./app'' [(''VERSION'', ''1'')] ''a:aa'', Returned Nothing),
      (ListImages, Returned (Images [\<lparr>RepoTags = Some [''a:aa'']\<rparr>]))]"

definition demoStopOptions :: OptionalStopOptions where
  "demoStopOptions = \<lparr>timeoutKey = Missing, removeVolumesKey = Holds (Some True)\<rparr>"

definition registryImages :: "ImageInfo list" where
  "registryImages = [\<lparr>RepoTags = Some [''localhost:5000/redis:latest'']\<rparr>, \<lparr>RepoTags = None\<rparr>]"

definition registryEngine :: "nat engine" where
  "registryEngine = demoEngine\<lparr>listImages := (\<lambda>w. (Inr registryImages, w))\<rparr>"

definition registryContainer :: GenericContainer where
  "registryContainer = newGenericContainer ''localhost:5000/redis'' None"

section \<open>Runs of the collaborator calls\<close>

lemma call_run:
  "call ev shown op (tr, w) =
     (case op w of
        (Inl e, w') \<Rightarrow> (Inl e, (tr @ [(ev, Threw e)], w'))
      | (Inr x, w') \<Rightarrow> (Inr x, (tr @ [(ev, Returned (shown x))], w')))"
  by (simp add: call_def)

lemma await_run:
  "await m f s = (case m s of (Inl e, s') \<Rightarrow> (Inl e, s') | (Inr x, s') \<Rightarrow> f x s')"
  by (simp add: await_def)

lemma bindPorts_run:
  "bindPorts eng ps bp (tr, w) = (r, (tr', w')) \<Longrightarrow>
     (case r of
        Inr bp' \<Rightarrow> \<exists>hs. length hs = length ps \<and> tr' = tr @ claimed ps hs \<and>
                   bp' = foldl (\<lambda>b (p, h). setBinding p h b) bp (zip ps hs)
      | Inl e \<Rightarrow> e = PortAllocationError \<and>
                 (\<exists>hs pre p out rest. length hs = length ps \<and>
                    claimed ps hs = pre @ (ClaimFreePort p, out) # rest \<and>
                    tr' = tr @ pre @ [(ClaimFreePort p, Threw e)]))"
proof (induction ps arbitrary: bp tr w)
  case Nil
  then show ?case by (auto simp: resolve_def claimed_def)
next
  case (Cons p ps)
  obtain res w1 where c: "claimFreePort eng w = (res, w1)" by (cases "claimFreePort eng w")
  show ?case
  proof (cases res)
    case None
    with c Cons.prems have r: "r = Inl PortAllocationError"
      and t: "tr' = tr @ [(ClaimFreePort p, Threw PortAllocationError)]"
      by (auto simp: claimPort_def call_run)
    have "length (0 # replicate (length ps) (0::nat)) = length (p # ps)" by simp
    moreover have "claimed (p # ps) (0 # replicate (length ps) 0) =
        [] @ (ClaimFreePort p, Returned (APort 0)) # claimed ps (replicate (length ps) 0)"
      by (simp add: claimed_def)
    ultimately show ?thesis using r t by (simp only: sum.case) blast
  next
    case (Some h)
    with c Cons.prems have rec:
      "bindPorts eng ps (setBinding p h bp) (tr @ [(ClaimFreePort p, Returned (APort h))], w1) = (r, (tr', w'))"
      by (auto simp: claimPort_def call_run)
    note IH = Cons.IH[OF rec]
    show ?thesis
    proof (cases r)
      case (Inr bp')
      with IH obtain hs where "length hs = length ps"
        "tr' = (tr @ [(ClaimFreePort p, Returned (APort h))]) @ claimed ps hs"
        "bp' = foldl (\<lambda>b (p, h). setBinding p h b) (setBinding p h bp) (zip ps hs)" by auto
      then have "length (h # hs) = length (p # ps) \<and> tr' = tr @ claimed (p # ps) (h # hs) \<and>
          bp' = foldl (\<lambda>b (p, h). setBinding p h b) bp (zip (p # ps) (h # hs))"
        by (simp add: claimed_def)
      then show ?thesis using Inr by (simp only: sum.case) blast
    next
      case (Inl e)
      with IH obtain hs pre q out rest where e: "e = PortAllocationError" and
        "length hs = length ps" "claimed ps hs = pre @ (ClaimFreePort q, out) # rest"
        "tr' = (tr @ [(ClaimFreePort p, Returned (APort h))]) @ pre @ [(ClaimFreePort q, Threw e)]"
        by auto
      then have "length (h # hs) = length (p # ps) \<and>
          claimed (p # ps) (h # hs) = ((ClaimFreePort p, Returned (APort h)) # pre) @ (ClaimFreePort q, out) # rest \<and>
          tr' = tr @ ((ClaimFreePort p, Returned (APort h)) # pre) @ [(ClaimFreePort q, Threw e)]"
        by (simp add: claimed_def)
      then show ?thesis using Inl e by (simp only: sum.case) blast
    qed
  qed
qed

lemma reduce_collectRepoTags:
  "reduce collectRepoTags acc images = Inr (acc @ repoTagsOfImages images)"
  by (induction images arbitrary: acc)
    (auto simp: collectRepoTags_def isDanglingImage_def repoTagsOfImages_def split: option.splits)

lemma hasRepoTagLocally_run:
  "hasRepoTagLocally eng gc (tr, w) =
     (case listImages eng w of
        (Inl e, w') \<Rightarrow> (Inl e, (tr @ [(ListImages, Threw e)], w'))
      | (Inr images, w') \<Rightarrow>
          (Inr (list_ex (\<lambda>r. equals r (repoTag gc)) (repoTagsOfImages images)),
           (tr @ [(ListImages, Returned (Images images))], w')))"
  by (simp add: hasRepoTagLocally_def fetchRepoTags_def await_run call_run resolve_def
      reduce_collectRepoTags split: prod.splits sum.splits)

lemma pullIfAbsent_run:
  assumes "pullIfAbsent eng gc (tr, w) = (r, (tr', w'))"
  shows "\<exists>images. (case r of
            Inr u \<Rightarrow> tr' = tr @ resolveSteps gc images
          | Inl e \<Rightarrow> \<exists>pre ev out rest. resolveSteps gc images = pre @ (ev, out) # rest \<and>
                       tr' = tr @ pre @ [(ev, Threw e)])"
proof -
  obtain r0 w0 where l: "listImages eng w = (r0, w0)" by (cases "listImages eng w")
  show ?thesis
  proof (cases r0)
    case (Inl e)
    with l assms have "r = Inl e" "tr' = tr @ [] @ [(ListImages, Threw e)]"
      by (auto simp: pullIfAbsent_def await_run hasRepoTagLocally_run)
    moreover have "resolveSteps gc [] = [] @ (ListImages, Returned (Images [])) # tl (resolveSteps gc [])"
      by (simp add: resolveSteps_def)
    ultimately show ?thesis by (simp only: sum.case) blast
  next
    case (Inr images)
    show ?thesis
    proof (cases "list_ex (\<lambda>r. equals r (repoTag gc)) (repoTagsOfImages images)")
      case True
      with Inr l assms have "r = Inr ()" "tr' = tr @ resolveSteps gc images"
        by (auto simp: pullIfAbsent_def await_run hasRepoTagLocally_run resolve_def resolveSteps_def)
      then show ?thesis by auto
    next
      case False
      obtain r1 w1 where p: "pullImage eng (RepoTag_toString (repoTag gc)) w0 = (r1, w1)"
        by (cases "pullImage eng (RepoTag_toString (repoTag gc)) w0")
      show ?thesis
      proof (cases r1)
        case (Inl e)
        with False Inr l p assms have "r = Inl e"
          "tr' = tr @ [(ListImages, Returned (Images images))] @
             [(PullImage (RepoTag_toString (repoTag gc)), Threw e)]"
          by (auto simp: pullIfAbsent_def await_run hasRepoTagLocally_run client_pull_def call_run)
        moreover have "resolveSteps gc images = [(ListImages, Returned (Images images))] @
            (PullImage (RepoTag_toString (repoTag gc)), Returned Nothing) # []"
          using False by (simp add: resolveSteps_def)
        ultimately show ?thesis by (simp only: sum.case) blast
      next
        case (Inr u)
        with False \<open>r0 = Inr images\<close> l p assms have "r = Inr ()" "tr' = tr @ resolveSteps gc images"
          by (auto simp: pullIfAbsent_def await_run hasRepoTagLocally_run client_pull_def call_run
              resolveSteps_def)
        then show ?thesis by auto
      qed
    qed
  qed
qed

lemma waitUntilReady_run:
  assumes "waitUntilReady eng strategy t c cs bp (tr, w) = (r, (tr', w'))"
  shows "(case r of
            Inr u \<Rightarrow> tr' = tr @ waitSteps strategy t c cs bp
          | Inl e \<Rightarrow> \<exists>pre ev out rest. waitSteps strategy t c cs bp = pre @ (ev, out) # rest \<and>
                       tr' = tr @ pre @ [(ev, Threw e)])"
proof (cases strategy)
  case (HostPortWaitStrategy hc ic)
  obtain b1 w1 where p1: "pollCheck eng hc t c cs bp w = (b1, w1)"
    by (cases "pollCheck eng hc t c cs bp w")
  obtain b2 w2 where p2: "pollCheck eng ic t c cs bp w1 = (b2, w2)"
    by (cases "pollCheck eng ic t c cs bp w1")
  show ?thesis
  proof (cases b1)
    case False
    with p1 assms HostPortWaitStrategy have "r = Inl WaitTimeoutError"
      "tr' = tr @ [] @ [(PollCheck hc t c cs bp, Threw WaitTimeoutError)]"
      by (auto simp: waitUntilReady_def await_run pollUntilReady_def call_run)
    moreover have "waitSteps strategy t c cs bp =
        [] @ (PollCheck hc t c cs bp, Returned Nothing) # [(PollCheck ic t c cs bp, Returned Nothing)]"
      using HostPortWaitStrategy by (simp add: waitSteps_def)
    ultimately show ?thesis by (simp only: sum.case) blast
  next
    case True
    show ?thesis
    proof (cases b2)
      case False
      with True p1 p2 assms HostPortWaitStrategy have "r = Inl WaitTimeoutError"
        "tr' = tr @ [(PollCheck hc t c cs bp, Returned Nothing)] @
           [(PollCheck ic t c cs bp, Threw WaitTimeoutError)]"
        by (auto simp: waitUntilReady_def await_run pollUntilReady_def call_run)
      moreover have "waitSteps strategy t c cs bp =
          [(PollCheck hc t c cs bp, Returned Nothing)] @ (PollCheck ic t c cs bp, Returned Nothing) # []"
        using HostPortWaitStrategy by (simp add: waitSteps_def)
      ultimately show ?thesis by (simp only: sum.case) blast
    next
      case b2: True
      with True p1 p2 assms HostPortWaitStrategy show ?thesis
        by (auto simp: waitUntilReady_def await_run pollUntilReady_def call_run waitSteps_def)
    qed
  qed
next
  case (CallerWaitStrategy label)
  obtain r1 w1 where p: "callerWaitUntilReady eng label t c cs bp w = (r1, w1)"
    by (cases "callerWaitUntilReady eng label t c cs bp w")
  show ?thesis
  proof (cases r1)
    case (Inl e)
    with p assms CallerWaitStrategy have "r = Inl e"
      "tr' = tr @ [] @ [(CallerWaitUntilReady label t c cs bp, Threw e)]"
      by (auto simp: waitUntilReady_def call_run)
    moreover have "waitSteps strategy t c cs bp =
        [] @ (CallerWaitUntilReady label t c cs bp, Returned Nothing) # []"
      using CallerWaitStrategy by (simp add: waitSteps_def)
    ultimately show ?thesis by (simp only: sum.case) blast
  next
    case (Inr u)
    with p assms CallerWaitStrategy show ?thesis
      by (auto simp: waitUntilReady_def call_run waitSteps_def)
  qed
qed

lemma orchestrationSteps_alt:
  "orchestrationSteps eng gc images hostPorts container inspectResult =
     resolveSteps gc images @ claimed (ports gc) hostPorts @
     [(CreateContainer (requestOf gc (boundPortsOf (ports gc) hostPorts)),
         Returned (AContainer container)),
      (ContainerStart container, Returned Nothing),
      (ContainerInspect container, Returned (AnInspectResult inspectResult))] @
     waitSteps (getWaitStrategy eng gc container) (startupTimeout gc) container
       (ContainerState inspectResult) (boundPortsOf (ports gc) hostPorts)"
  by (simp add: orchestrationSteps_def resolveSteps_def)

lemma start_unfold:
  "start eng gc s =
     (case pullIfAbsent eng gc s of (Inl e, s1) \<Rightarrow> (Inl e, s1) | (Inr u, s1) \<Rightarrow>
     (case PortBinder_bind eng (ports gc) s1 of (Inl e, s2) \<Rightarrow> (Inl e, s2) | (Inr bp, s2) \<Rightarrow>
     (case call (CreateContainer (requestOf gc bp)) AContainer
             (createContainer eng (requestOf gc bp)) s2 of
        (Inl e, s3) \<Rightarrow> (Inl e, s3) | (Inr c, s3) \<Rightarrow>
     (case call (ContainerStart c) (\<lambda>_. Nothing) (containerStart eng c) s3 of
        (Inl e, s4) \<Rightarrow> (Inl e, s4) | (Inr u, s4) \<Rightarrow>
     (case call (ContainerInspect c) AnInspectResult (containerInspect eng c) s4 of
        (Inl e, s5) \<Rightarrow> (Inl e, s5) | (Inr ir, s5) \<Rightarrow>
     (case waitUntilReady eng (getWaitStrategy eng gc c) (startupTimeout gc) c (ContainerState ir) bp s5 of
        (Inl e, s6) \<Rightarrow> (Inl e, s6)
      | (Inr u, s6) \<Rightarrow>
          (Inr \<lparr>startedContainer = c, startedHost = host eng, startedBoundPorts = bp,
                startedName = inspectName ir\<rparr>, s6)))))))"
  by (simp add: start_def await_run client_create_def client_start_def inspect_def
      waitForContainer_def requestOf_def resolve_def getHost_def
      split: prod.splits sum.splits)

lemma start_run:
  assumes "start eng gc (tr, w) = (r, (tr', w'))"
  shows "\<exists>images hostPorts container inspectResult.
           length hostPorts = length (ports gc) \<and>
           (case r of
              Inr h \<Rightarrow> tr' = tr @ orchestrationSteps eng gc images hostPorts container inspectResult \<and>
                       h = handleOf eng gc hostPorts container inspectResult
            | Inl e \<Rightarrow> \<exists>pre ev out rest.
                         orchestrationSteps eng gc images hostPorts container inspectResult =
                           pre @ (ev, out) # rest \<and>
                         tr' = tr @ pre @ [(ev, Threw e)])"
proof -
  let ?goal = "\<lambda>images hostPorts container inspectResult.
           length hostPorts = length (ports gc) \<and>
           (case r of
              Inr h \<Rightarrow> tr' = tr @ orchestrationSteps eng gc images hostPorts container inspectResult \<and>
                       h = handleOf eng gc hostPorts container inspectResult
            | Inl e \<Rightarrow> \<exists>pre ev out rest.
                         orchestrationSteps eng gc images hostPorts container inspectResult =
                           pre @ (ev, out) # rest \<and>
                         tr' = tr @ pre @ [(ev, Threw e)])"
  have failed: "?goal images hs c ir"
    if "r = Inl e" "length hs = length (ports gc)"
       "orchestrationSteps eng gc images hs c ir = pre @ (ev, out) # rest"
       "tr' = tr @ pre @ [(ev, Threw e)]"
    for images hs c ir e pre ev out rest
    using that by (simp only: sum.case) blast
  note st = assms[unfolded start_unfold]
  obtain r1 tr1 w1 where s1: "pullIfAbsent eng gc (tr, w) = (r1, (tr1, w1))"
    by (metis surj_pair)
  from pullIfAbsent_run[OF s1] obtain images where i1: "(case r1 of
            Inr u \<Rightarrow> tr1 = tr @ resolveSteps gc images
          | Inl e \<Rightarrow> \<exists>pre ev out rest. resolveSteps gc images = pre @ (ev, out) # rest \<and>
                       tr1 = tr @ pre @ [(ev, Threw e)])" by blast
  show ?thesis
  proof (cases r1)
    case (Inl e)
    with i1 obtain pre ev out rest where p: "resolveSteps gc images = pre @ (ev, out) # rest"
      "tr1 = tr @ pre @ [(ev, Threw e)]" by auto
    from st s1 Inl have "r = Inl e" "tr' = tr1" by auto
    then have "?goal images (replicate (length (ports gc)) 0) (Container []) \<lparr>inspectName = []\<rparr>"
      using p by (intro failed[where pre = pre and ev = ev and out = out])
        (simp_all add: orchestrationSteps_alt)
    then show ?thesis by blast
  next
    case u1: (Inr u)
    with i1 have t1: "tr1 = tr @ resolveSteps gc images" by simp
    obtain r2 tr2 w2 where s2: "PortBinder_bind eng (ports gc) (tr1, w1) = (r2, (tr2, w2))"
      by (metis surj_pair)
    note b = bindPorts_run[OF s2[unfolded PortBinder_bind_def]]
    show ?thesis
    proof (cases r2)
      case (Inl e)
      with b obtain hs pre p out rest where p: "length hs = length (ports gc)"
        "claimed (ports gc) hs = pre @ (ClaimFreePort p, out) # rest"
        "tr2 = tr1 @ pre @ [(ClaimFreePort p, Threw e)]" by auto
      from st s1 u1 s2 Inl have "r = Inl e" "tr' = tr2" by auto
      then have "?goal images hs (Container []) \<lparr>inspectName = []\<rparr>"
        using p t1
        by (intro failed[where pre = "resolveSteps gc images @ pre" and ev = "ClaimFreePort p" and out = out])
          (simp_all add: orchestrationSteps_alt)
      then show ?thesis by blast
    next
      case u2: (Inr bp)
      with b obtain hs where h: "length hs = length (ports gc)"
        "tr2 = tr1 @ claimed (ports gc) hs" "bp = boundPortsOf (ports gc) hs"
        by (auto simp: boundPortsOf_def)
      obtain r3 w3 where s3: "createContainer eng (requestOf gc bp) w2 = (r3, w3)"
        by (metis surj_pair)
      show ?thesis
      proof (cases r3)
        case (Inl e)
        with st s1 u1 s2 u2 s3 have "r = Inl e"
          "tr' = tr2 @ [(CreateContainer (requestOf gc bp), Threw e)]"
          by (auto simp: call_run)
        then have "?goal images hs (Container []) \<lparr>inspectName = []\<rparr>"
          using h t1
          by (intro failed[where pre = "resolveSteps gc images @ claimed (ports gc) hs"
                and ev = "CreateContainer (requestOf gc bp)"
                and out = "Returned (AContainer (Container []))"])
            (simp_all add: orchestrationSteps_alt)
        then show ?thesis by blast
      next
        case u3: (Inr c)
        let ?tr3 = "tr2 @ [(CreateContainer (requestOf gc bp), Returned (AContainer c))]"
        obtain r4 w4 where s4: "containerStart eng c w3 = (r4, w4)" by (metis surj_pair)
        show ?thesis
        proof (cases r4)
          case (Inl e)
          with st s1 u1 s2 u2 s3 u3 s4 have "r = Inl e"
            "tr' = ?tr3 @ [(ContainerStart c, Threw e)]"
            by (auto simp: call_run)
          then have "?goal images hs c \<lparr>inspectName = []\<rparr>"
            using h t1
            by (intro failed[where pre = "resolveSteps gc images @ claimed (ports gc) hs @
                    [(CreateContainer (requestOf gc bp), Returned (AContainer c))]"
                  and ev = "ContainerStart c" and out = "Returned Nothing"])
              (simp_all add: orchestrationSteps_alt)
          then show ?thesis by blast
        next
          case u4: (Inr u')
          let ?tr4 = "?tr3 @ [(ContainerStart c, Returned Nothing)]"
          obtain r5 w5 where s5: "containerInspect eng c w4 = (r5, w5)" by (metis surj_pair)
          show ?thesis
          proof (cases r5)
            case (Inl e)
            with st s1 u1 s2 u2 s3 u3 s4 u4 s5 have "r = Inl e"
              "tr' = ?tr4 @ [(ContainerInspect c, Threw e)]"
              by (auto simp: call_run)
            then have "?goal images hs c \<lparr>inspectName = []\<rparr>"
              using h t1
              by (intro failed[where pre = "resolveSteps gc images @ claimed (ports gc) hs @
                      [(CreateContainer (requestOf gc bp), Returned (AContainer c)),
                       (ContainerStart c, Returned Nothing)]"
                    and ev = "ContainerInspect c"
                    and out = "Returned (AnInspectResult \<lparr>inspectName = []\<rparr>)"])
                (simp_all add: orchestrationSteps_alt)
            then show ?thesis by blast
          next
            case u5: (Inr ir)
            let ?tr5 = "?tr4 @ [(ContainerInspect c, Returned (AnInspectResult ir))]"
            obtain r6 tr6 w6 where s6: "waitUntilReady eng (getWaitStrategy eng gc c) (startupTimeout gc) c
                (ContainerState ir) bp (?tr5, w5) = (r6, (tr6, w6))" by (metis surj_pair)
            note wr = waitUntilReady_run[OF s6]
            show ?thesis
            proof (cases r6)
              case (Inl e)
              with wr obtain pre ev out rest where p:
                "waitSteps (getWaitStrategy eng gc c) (startupTimeout gc) c (ContainerState ir) bp =
                   pre @ (ev, out) # rest"
                "tr6 = ?tr5 @ pre @ [(ev, Threw e)]" by auto
              from st s1 u1 s2 u2 s3 u3 s4 u4 s5 u5 s6 Inl have "r = Inl e" "tr' = tr6"
                by (auto simp: call_run)
              then have "?goal images hs c ir"
                using h t1 p
                by (intro failed[where pre = "resolveSteps gc images @ claimed (ports gc) hs @
                        [(CreateContainer (requestOf gc bp), Returned (AContainer c)),
                         (ContainerStart c, Returned Nothing),
                         (ContainerInspect c, Returned (AnInspectResult ir))] @ pre"
                      and ev = ev and out = out])
                  (simp_all add: orchestrationSteps_alt)
              then show ?thesis by blast
            next
              case u6: (Inr u'')
              with wr have "tr6 = ?tr5 @
                  waitSteps (getWaitStrategy eng gc c) (startupTimeout gc) c (ContainerState ir) bp"
                by simp
              moreover from st s1 u1 s2 u2 s3 u3 s4 u4 s5 u5 s6 u6
              have "r = Inr (handleOf eng gc hs c ir)" "tr' = tr6"
                using h by (auto simp: call_run handleOf_def)
              ultimately have "?goal images hs c ir"
                using h t1 by (simp add: orchestrationSteps_alt)
              then show ?thesis by blast
            qed
          qed
        qed
      qed
    qed
  qed
qed

lemma claimed_returned: "x \<in> set (claimed ps hs) \<Longrightarrow> \<exists>p h. x = (ClaimFreePort p, Returned (APort h)) \<and> (p, h) \<in> set (zip ps hs)"
  by (auto simp: claimed_def)

lemma waitSteps_returned: "x \<in> set (waitSteps s t c cs bp) \<Longrightarrow> snd x = Returned Nothing"
  by (auto simp: waitSteps_def split: WaitStrategy.splits)

lemma orchestrationSteps_returned:
  "x \<in> set (orchestrationSteps eng gc images hs c ir) \<Longrightarrow> \<exists>v. snd x = Returned v"
  by (auto simp: orchestrationSteps_def dest: claimed_returned waitSteps_returned split: if_splits)

lemmas run_defs = start_def await_def call_def resolve_def throw_def pullIfAbsent_def
  hasRepoTagLocally_def fetchRepoTags_def repoTagsOfImages_def collectRepoTags_def
  Object_entries_def arrayIndex_def isDigit_def decimal_def
  isDanglingImage_def repoTagOfString_def element_def equals_def client_pull_def
  RepoTag_toString_def templateString_def PortBinder_bind_def claimPort_def setBinding_def
  client_create_def creationRequest_def getEnv_def getExposedPorts_def getPortBindings_def
  getBindMounts_def iterator_def client_start_def inspect_def waitForContainer_def
  getWaitStrategy_def getHost_def waitUntilReady_def pollUntilReady_def
  newGenericContainer_def configured_def withExposedPorts_def withCmd_def withName_def
  withEnv_def withTmpFs_def withBindMount_def withStartupTimeout_def withWaitStrategy_def
  Number_toString.simps digitChar_def

lemmas demo_defs = demoEngine_def demoContainer_def demoImages_def demoBoundPorts_def
  demoHandle_def demoRequest_def demoTrace_def failingCreate_def failedCreateTrace_def

lemma demo_start: "start demoEngine demoContainer ([], 0) = (Inr demoHandle, (demoTrace, 2))"
  by (simp add: run_defs demo_defs)

lemma failingCreate_start:
  "start failingCreate demoContainer ([], 0) = (Inl (Error ''no such image''), (failedCreateTrace, 2))"
  by (simp add: run_defs demo_defs)

lemma demo_orchestrationSteps:
  "orchestrationSteps demoEngine demoContainer demoImages [32768, 32769] (Container ''c1'')
     \<lparr>inspectName = ''/web''\<rparr> = demoTrace"
  by (simp add: orchestrationSteps_def claimed_def boundPortsOf_def requestOf_def waitSteps_def
      run_defs demo_defs)

section \<open>The order of the steps of start()\<close>



section \<open>Failures of start()\<close>

text \<open>
  C2. When a step of \<open>start\<close> fails, the run ends there with the error that step threw and
  returns no handle: the failing call is the last one made and every call before it
  returned. A handle is returned only by a run in which every call of the orchestration
  was made and returned.
\<close>

theorem start_propagates_errors:
  assumes "start eng gc (tr, w) = (r, (tr', w'))"
  shows "\<exists>made. tr' = tr @ made \<and>
           (\<forall>ev e. (ev, Threw e) \<in> set made \<longrightarrow> r = Inl e) \<and>
           (case r of
              Inl e \<Rightarrow> \<exists>pre ev. made = pre @ [(ev, Threw e)] \<and> (\<forall>x \<in> set pre. \<exists>v. snd x = Returned v)
            | Inr h \<Rightarrow> (\<forall>x \<in> set made. \<exists>v. snd x = Returned v) \<and>
                (\<exists>images hostPorts container inspectResult.
                   made = orchestrationSteps eng gc images hostPorts container inspectResult))"
proof -
  from start_run[OF assms] obtain images hs c ir where
    run: "(case r of
              Inr h \<Rightarrow> tr' = tr @ orchestrationSteps eng gc images hs c ir \<and>
                       h = handleOf eng gc hs c ir
            | Inl e \<Rightarrow> \<exists>pre ev out rest.
                         orchestrationSteps eng gc images hs c ir = pre @ (ev, out) # rest \<and>
                         tr' = tr @ pre @ [(ev, Threw e)])" by blast
  show ?thesis
  proof (cases r)
    case (Inr h)
    with run have t: "tr' = tr @ orchestrationSteps eng gc images hs c ir" by auto
    have all: "\<forall>x \<in> set (orchestrationSteps eng gc images hs c ir). \<exists>v. snd x = Returned v"
      using orchestrationSteps_returned by blast
    then have "\<forall>ev e. (ev, Threw e) \<in> set (orchestrationSteps eng gc images hs c ir) \<longrightarrow> r = Inl e"
      by fastforce
    with t all Inr show ?thesis
      by (intro exI[of _ "orchestrationSteps eng gc images hs c ir"]) auto
  next
    case (Inl e)
    with run obtain pre ev out rest where
      full: "orchestrationSteps eng gc images hs c ir = pre @ (ev, out) # rest" and
      t: "tr' = tr @ pre @ [(ev, Threw e)]" by auto
    have pre: "\<forall>x \<in> set pre. \<exists>v. snd x = Returned v"
    proof
      fix x assume "x \<in> set pre"
      then have "x \<in> set (orchestrationSteps eng gc images hs c ir)" using full by simp
      then show "\<exists>v. snd x = Returned v" by (rule orchestrationSteps_returned)
    qed
    then have "\<forall>ev' e'. (ev', Threw e') \<in> set (pre @ [(ev, Threw e)]) \<longrightarrow> r = Inl e'"
      using Inl by fastforce
    with t pre Inl show ?thesis
      by (intro exI[of _ "pre @ [(ev, Threw e)]"]) auto
  qed
qed

theorem start_propagates_errors_witness:
  "start failingCreate demoContainer ([], 0) =
     (Inl (Error ''no such image''), (failedCreateTrace, 2)) \<and>
   (\<exists>made. failedCreateTrace = [] @ made \<and>
      (\<forall>ev e. (ev, Threw e) \<in> set made \<longrightarrow> Inl (Error ''no such image'') = (Inl e :: error + StartedGenericContainer)) \<and>
      (\<exists>pre ev. made = pre @ [(ev, Threw (Error ''no such image''))] \<and>
         (\<forall>x \<in> set pre. \<exists>v. snd x = Returned v)))"
  using failingCreate_start start_propagates_errors[OF failingCreate_start] by simp

section \<open>Resolving the image\<close>

lemma no_pull_claimed: "(PullImage x, out) \<notin> set (claimed ps hs)"
  by (auto simp: claimed_def)

lemma no_pull_wait: "(PullImage x, out) \<notin> set (waitSteps s t c cs bp)"
  by (auto simp: waitSteps_def split: WaitStrategy.splits)


lemma no_pull_after: "(PullImage x, out) \<notin> set (afterResolve eng gc hs c ir)"
  by (auto simp: afterResolve_def no_pull_claimed no_pull_wait)

lemma steps_split: "orchestrationSteps eng gc images hs c ir = resolveSteps gc images @ afterResolve eng gc hs c ir"
  by (simp add: orchestrationSteps_alt afterResolve_def)

lemma prefix_thrown_no_pull:
  assumes "full = pre @ (ev, out) # rest" "\<forall>x o'. (PullImage x, o') \<notin> set full"
  shows "\<forall>x o'. (PullImage x, o') \<notin> set (pre @ [(ev, Threw e)])"
  using assms by (cases ev) auto

lemma pulls_in_trace:
  assumes "start eng gc (tr, w) = (r, (tr', w'))"
  shows "\<exists>out rest. tr' = tr @ (ListImages, out) # rest \<and>
           (\<forall>images. out = Returned (Images images) \<longrightarrow>
              (if \<exists>known \<in> set (repoTagsOfImages images).
                    imageName known = imageName (repoTag gc) \<and> tag known = tag (repoTag gc)
               then \<forall>x o'. (PullImage x, o') \<notin> set rest
               else \<exists>o' rest'. rest = (PullImage (RepoTag_toString (repoTag gc)), o') # rest' \<and>
                       (\<forall>x o''. (PullImage x, o'') \<notin> set rest')))"
proof -
  from start_run[OF assms] obtain images hs c ir where
    run: "(case r of
              Inr h \<Rightarrow> tr' = tr @ orchestrationSteps eng gc images hs c ir \<and>
                       h = handleOf eng gc hs c ir
            | Inl e \<Rightarrow> \<exists>pre ev out rest.
                         orchestrationSteps eng gc images hs c ir = pre @ (ev, out) # rest \<and>
                         tr' = tr @ pre @ [(ev, Threw e)])" by blast
  let ?local = "\<lambda>images. \<exists>known \<in> set (repoTagsOfImages images).
                    imageName known = imageName (repoTag gc) \<and> tag known = tag (repoTag gc)"
  let ?P = "\<lambda>images. (PullImage (RepoTag_toString (repoTag gc)), Returned Nothing)"
  let ?A = "afterResolve eng gc hs c ir"
  have loc: "list_ex (\<lambda>r. equals r (repoTag gc)) (repoTagsOfImages imgs) = ?local imgs" for imgs
    by (auto simp: list_ex_iff equals_def)
  have full: "orchestrationSteps eng gc images hs c ir =
      (ListImages, Returned (Images images)) # (if ?local images then [] else [?P images]) @ ?A"
    by (simp add: steps_split resolveSteps_def loc)
  show ?thesis
  proof (cases r)
    case (Inr h)
    with run have "tr' = tr @ orchestrationSteps eng gc images hs c ir" by simp
    then show ?thesis unfolding full
      by (intro exI[of _ "Returned (Images images)"]
          exI[of _ "(if ?local images then [] else [?P images]) @ ?A"])
        (auto simp: no_pull_after)
  next
    case (Inl e)
    with run obtain pre ev out rest where
      f: "orchestrationSteps eng gc images hs c ir = pre @ (ev, out) # rest" and
      t: "tr' = tr @ pre @ [(ev, Threw e)]" by auto
    show ?thesis
    proof (cases pre)
      case Nil
      with f full have "ev = ListImages" by simp
      with t Nil show ?thesis by auto
    next
      case (Cons a pre1)
      with f full have a: "a = (ListImages, Returned (Images images))" and
        f1: "(if ?local images then [] else [?P images]) @ ?A = pre1 @ (ev, out) # rest" by auto
      show ?thesis
      proof (cases "?local images")
        case True
        with f1 have "?A = pre1 @ (ev, out) # rest" by simp
        then have "\<forall>x o'. (PullImage x, o') \<notin> set (pre1 @ [(ev, Threw e)])"
          by (rule prefix_thrown_no_pull) (simp add: no_pull_after)
        with t Cons a True show ?thesis
          by (intro exI[of _ "Returned (Images images)"] exI[of _ "pre1 @ [(ev, Threw e)]"]) simp
      next
        case False
        with f1 have f2: "?P images # ?A = pre1 @ (ev, out) # rest" by simp
        show ?thesis
        proof (cases pre1)
          case Nil
          with f2 have "ev = PullImage (RepoTag_toString (repoTag gc))" by simp
          with t Cons a False Nil show ?thesis
            by (intro exI[of _ "Returned (Images images)"] exI[of _ "[(ev, Threw e)]"]) simp
        next
          case (Cons b pre2)
          with f2 have b: "b = ?P images" and f3: "?A = pre2 @ (ev, out) # rest" by auto
          from f3 have "\<forall>x o'. (PullImage x, o') \<notin> set (pre2 @ [(ev, Threw e)])"
            by (rule prefix_thrown_no_pull) (simp add: no_pull_after)
          with t \<open>pre = a # pre1\<close> Cons a b False show ?thesis
            by (intro exI[of _ "Returned (Images images)"]
                exI[of _ "?P images # pre2 @ [(ev, Threw e)]"]) simp
        qed
      qed
    qed
  qed
qed

lemma start_provision:
  "start eng gc s =
     (case pullIfAbsent eng gc s of (Inl e, s1) \<Rightarrow> (Inl e, s1) | (Inr u, s1) \<Rightarrow> provision eng gc s1)"
  by (simp add: start_def provision_def await_run split: prod.splits sum.splits)

lemma bindPorts_ignores_pull:
  "bindPorts (eng\<lparr>pullImage := f\<rparr>) ps bp s = bindPorts eng ps bp s"
  by (induction ps arbitrary: bp s) (simp_all add: claimPort_def split: prod.splits sum.splits)

lemma stages_ignore_pull:
  "PortBinder_bind (eng\<lparr>pullImage := f\<rparr>) = PortBinder_bind eng"
  "client_create (eng\<lparr>pullImage := f\<rparr>) = client_create eng"
  "client_start (eng\<lparr>pullImage := f\<rparr>) = client_start eng"
  "inspect (eng\<lparr>pullImage := f\<rparr>) = inspect eng"
  "getHost (eng\<lparr>pullImage := f\<rparr>) = getHost eng"
  "waitForContainer (eng\<lparr>pullImage := f\<rparr>) = waitForContainer eng"
proof -
  show "PortBinder_bind (eng\<lparr>pullImage := f\<rparr>) = PortBinder_bind eng"
    by (intro ext) (simp add: PortBinder_bind_def bindPorts_ignores_pull)
  show "client_create (eng\<lparr>pullImage := f\<rparr>) = client_create eng"
    by (intro ext) (simp add: client_create_def)
  show "client_start (eng\<lparr>pullImage := f\<rparr>) = client_start eng"
    by (intro ext) (simp add: client_start_def)
  show "inspect (eng\<lparr>pullImage := f\<rparr>) = inspect eng"
    by (intro ext) (simp add: inspect_def)
  show "getHost (eng\<lparr>pullImage := f\<rparr>) = getHost eng"
    by (simp add: getHost_def)
  have p: "pollUntilReady (eng\<lparr>pullImage := f\<rparr>) = pollUntilReady eng"
    by (intro ext) (simp add: pollUntilReady_def)
  have w: "waitUntilReady (eng\<lparr>pullImage := f\<rparr>) = waitUntilReady eng"
    by (intro ext) (simp add: waitUntilReady_def p split: WaitStrategy.splits)
  have g: "getWaitStrategy (eng\<lparr>pullImage := f\<rparr>) = getWaitStrategy eng"
    by (intro ext) (simp add: getWaitStrategy_def getHost_def split: option.splits)
  show "waitForContainer (eng\<lparr>pullImage := f\<rparr>) = waitForContainer eng"
    by (intro ext) (simp only: waitForContainer_def w g)
qed

lemma provision_ignores_pull: "provision (eng\<lparr>pullImage := f\<rparr>) gc s = provision eng gc s"
  by (simp only: provision_def stages_ignore_pull)

lemma pullIfAbsent_listed:
  assumes "listImages eng w = (Inr images, w1)"
  shows "pullIfAbsent eng gc (tr, w) =
           (if \<exists>known \<in> set (repoTagsOfImages images).
                 imageName known = imageName (repoTag gc) \<and> tag known = tag (repoTag gc)
            then (Inr (), (tr @ [(ListImages, Returned (Images images))], w1))
            else (case pullImage eng (RepoTag_toString (repoTag gc)) w1 of
                    (Inl e, w2) \<Rightarrow>
                      (Inl e, (tr @ [(ListImages, Returned (Images images)),
                                     (PullImage (RepoTag_toString (repoTag gc)), Threw e)], w2))
                  | (Inr u, w2) \<Rightarrow>
                      (Inr (), (tr @ [(ListImages, Returned (Images images)),
                                      (PullImage (RepoTag_toString (repoTag gc)), Returned Nothing)], w2))))"
proof -
  have loc: "list_ex (\<lambda>r. equals r (repoTag gc)) (repoTagsOfImages images) =
      (\<exists>known \<in> set (repoTagsOfImages images).
                 imageName known = imageName (repoTag gc) \<and> tag known = tag (repoTag gc))"
    by (auto simp: list_ex_iff equals_def)
  obtain r2 w2 where p: "pullImage eng (RepoTag_toString (repoTag gc)) w1 = (r2, w2)"
    by (metis surj_pair)
  show ?thesis
    using assms p
    by (cases r2)
      (simp_all add: pullIfAbsent_def await_run hasRepoTagLocally_run client_pull_def call_run
        resolve_def loc)
qed

text \<open>
  C3. When the engine lists its images, \<open>start\<close> pulls the image if and only if no listed
  reference has the name and the tag of the requested one. If one has, the run goes on
  from the world the listing left, with no call of the engine's pull; if none has, the
  engine's pull is called for the requested reference in that world, its error ends the
  run, and otherwise the run goes on from the world the pull left. Nothing after that
  depends on the engine's pull, and the trace of the run holds the pull at most once,
  right after the listing.
\<close>

theorem pull_iff_absent:
  assumes "listImages eng w = (Inr images, w1)"
  shows "start eng gc (tr, w) =
           (if \<exists>known \<in> set (repoTagsOfImages images).
                 imageName known = imageName (repoTag gc) \<and> tag known = tag (repoTag gc)
            then provision eng gc (tr @ [(ListImages, Returned (Images images))], w1)
            else (case pullImage eng (RepoTag_toString (repoTag gc)) w1 of
                    (Inl e, w2) \<Rightarrow>
                      (Inl e, (tr @ [(ListImages, Returned (Images images)),
                                     (PullImage (RepoTag_toString (repoTag gc)), Threw e)], w2))
                  | (Inr u, w2) \<Rightarrow>
                      provision eng gc
                        (tr @ [(ListImages, Returned (Images images)),
                               (PullImage (RepoTag_toString (repoTag gc)), Returned Nothing)], w2))) \<and>
         (\<forall>f s. provision (eng\<lparr>pullImage := f\<rparr>) gc s = provision eng gc s) \<and>
         (\<forall>r tr' w'. start eng gc (tr, w) = (r, (tr', w')) \<longrightarrow>
            (\<exists>out rest. tr' = tr @ (ListImages, out) # rest \<and>
               (\<forall>images. out = Returned (Images images) \<longrightarrow>
                  (if \<exists>known \<in> set (repoTagsOfImages images).
                        imageName known = imageName (repoTag gc) \<and> tag known = tag (repoTag gc)
                   then \<forall>x o'. (PullImage x, o') \<notin> set rest
                   else \<exists>o' rest'. rest = (PullImage (RepoTag_toString (repoTag gc)), o') # rest' \<and>
                           (\<forall>x o''. (PullImage x, o'') \<notin> set rest')))))"
proof (intro conjI allI impI)
  obtain r2 w2 where p: "pullImage eng (RepoTag_toString (repoTag gc)) w1 = (r2, w2)"
    by (metis surj_pair)
  show "start eng gc (tr, w) =
           (if \<exists>known \<in> set (repoTagsOfImages images).
                 imageName known = imageName (repoTag gc) \<and> tag known = tag (repoTag gc)
            then provision eng gc (tr @ [(ListImages, Returned (Images images))], w1)
            else (case pullImage eng (RepoTag_toString (repoTag gc)) w1 of
                    (Inl e, w2) \<Rightarrow>
                      (Inl e, (tr @ [(ListImages, Returned (Images images)),
                                     (PullImage (RepoTag_toString (repoTag gc)), Threw e)], w2))
                  | (Inr u, w2) \<Rightarrow>
                      provision eng gc
                        (tr @ [(ListImages, Returned (Images images)),
                               (PullImage (RepoTag_toString (repoTag gc)), Returned Nothing)], w2)))"
  proof (cases "\<exists>known \<in> set (repoTagsOfImages images).
                 imageName known = imageName (repoTag gc) \<and> tag known = tag (repoTag gc)")
    case True
    then show ?thesis
      by (simp only: start_provision pullIfAbsent_listed[OF assms] if_True prod.case sum.case)
  next
    case False
    then show ?thesis
      using p
      by (cases r2)
        (simp_all only: start_provision pullIfAbsent_listed[OF assms] if_False prod.case sum.case)
  qed
next
  fix f s show "provision (eng\<lparr>pullImage := f\<rparr>) gc s = provision eng gc s"
    by (rule provision_ignores_pull)
next
  fix r tr' w' assume "start eng gc (tr, w) = (r, (tr', w'))"
  then show "\<exists>out rest. tr' = tr @ (ListImages, out) # rest \<and>
               (\<forall>images. out = Returned (Images images) \<longrightarrow>
                  (if \<exists>known \<in> set (repoTagsOfImages images).
                        imageName known = imageName (repoTag gc) \<and> tag known = tag (repoTag gc)
                   then \<forall>x o'. (PullImage x, o') \<notin> set rest
                   else \<exists>o' rest'. rest = (PullImage (RepoTag_toString (repoTag gc)), o') # rest' \<and>
                           (\<forall>x o''. (PullImage x, o'') \<notin> set rest')))"
    by (rule pulls_in_trace)
qed

theorem pull_iff_absent_witness:
  "listImages demoEngine 0 = (Inr demoImages, 0) \<and>
   start demoEngine demoContainer ([], 0) =
     provision demoEngine demoContainer
       ([(ListImages, Returned (Images demoImages)),
         (PullImage ''redis:latest'', Returned Nothing)], 0) \<and>
   start demoEngine localContainer ([], 0) =
     provision demoEngine localContainer ([(ListImages, Returned (Images demoImages))], 0) \<and>
   start failingPull demoContainer ([], 0) =
     (Inl (Error ''pull access denied''),
      ([(ListImages, Returned (Images demoImages)),
        (PullImage ''redis:latest'', Threw (Error ''pull access denied''))], 1))"
proof -
  have l: "listImages demoEngine 0 = (Inr demoImages, 0)" by (simp add: demoEngine_def)
  have lf: "listImages failingPull 0 = (Inr demoImages, 0)"
    by (simp add: failingPull_def demoEngine_def)
  have known: "repoTagsOfImages demoImages = [\<lparr>imageName = Some ''redis'', tag = Some ''5''\<rparr>]"
    by (simp add: run_defs demo_defs)
  have rt: "repoTag demoContainer = \<lparr>imageName = Some ''redis'', tag = Some ''latest''\<rparr>"
    "repoTag localContainer = \<lparr>imageName = Some ''redis'', tag = Some ''5''\<rparr>"
    by (simp_all add: run_defs demo_defs localContainer_def)
  have ts: "RepoTag_toString \<lparr>imageName = Some ''redis'', tag = Some ''latest''\<rparr> = ''redis:latest''"
    by (simp add: RepoTag_toString_def templateString_def)
  have p: "pullImage demoEngine ''redis:latest'' 0 = (Inr (), 0)"
    "pullImage failingPull ''redis:latest'' 0 = (Inl (Error ''pull access denied''), 1)"
    by (simp_all add: failingPull_def demoEngine_def)
  have 1: "start demoEngine demoContainer ([], 0) =
     provision demoEngine demoContainer
       ([(ListImages, Returned (Images demoImages)),
         (PullImage ''redis:latest'', Returned Nothing)], 0)"
    using conjunct1[OF pull_iff_absent[OF l, of demoContainer "[]"]]
    by (simp add: known rt ts p)
  have 2: "start demoEngine localContainer ([], 0) =
     provision demoEngine localContainer ([(ListImages, Returned (Images demoImages))], 0)"
    using conjunct1[OF pull_iff_absent[OF l, of localContainer "[]"]]
    by (simp add: known rt)
  have 3: "start failingPull demoContainer ([], 0) =
     (Inl (Error ''pull access denied''),
      ([(ListImages, Returned (Images demoImages)),
        (PullImage ''redis:latest'', Threw (Error ''pull access denied''))], 1))"
    using conjunct1[OF pull_iff_absent[OF lf, of demoContainer "[]"]]
    by (simp add: known rt ts p)
  from l 1 2 3 show ?thesis by (simp only: simp_thms)
qed

section \<open>The wait step\<close>

lemma configured_snoc: "configured (calls @ [c]) gc = configure c (configured calls gc)"
  by (simp add: configured_def)

lemma waitStrategy_configured:
  "waitStrategy (configured calls gc) =
     (if strategiesSet calls = [] then waitStrategy gc else Some (last (strategiesSet calls)))"
proof (induction calls rule: rev_induct)
  case Nil
  then show ?case by (simp add: configured_def strategiesSet_def)
next
  case (snoc c calls)
  then show ?case
    by (cases c)
      (simp_all add: configured_snoc strategiesSet_def withCmd_def withName_def withEnv_def
        withTmpFs_def withExposedPorts_def withBindMount_def withStartupTimeout_def
        withWaitStrategy_def)
qed

lemma startupTimeout_configured:
  "startupTimeout (configured calls gc) =
     (if timeoutsSet calls = [] then startupTimeout gc else last (timeoutsSet calls))"
proof (induction calls rule: rev_induct)
  case Nil
  then show ?case by (simp add: configured_def timeoutsSet_def)
next
  case (snoc c calls)
  then show ?case
    by (cases c)
      (simp_all add: configured_snoc timeoutsSet_def withCmd_def withName_def withEnv_def
        withTmpFs_def withExposedPorts_def withBindMount_def withStartupTimeout_def
        withWaitStrategy_def)
qed

lemma composite_ready:
  "waitUntilReady eng (HostPortWaitStrategy hc ic) t c cs bp (tr, w) = (Inr (), (tr', w')) \<longleftrightarrow>
     (\<exists>w1. pollCheck eng hc t c cs bp w = (True, w1) \<and> pollCheck eng ic t c cs bp w1 = (True, w') \<and>
        tr' = tr @ [(PollCheck hc t c cs bp, Returned Nothing), (PollCheck ic t c cs bp, Returned Nothing)])"
  by (auto simp: waitUntilReady_def await_run pollUntilReady_def call_run split: prod.splits bool.splits)

lemma waitTimeouts_append: "waitTimeouts (a @ b) = waitTimeouts a @ waitTimeouts b"
  by (simp add: waitTimeouts_def)

lemma waitTimeouts_claimed: "waitTimeouts (claimed ps hs) = []"
  by (induction ps arbitrary: hs) (auto simp: waitTimeouts_def claimed_def)

lemma waitTimeouts_resolveSteps: "waitTimeouts (resolveSteps gc images) = []"
  by (simp add: waitTimeouts_def resolveSteps_def)

lemma waitTimeouts_waitSteps: "set (waitTimeouts (waitSteps s t c cs bp)) = {t}"
  by (simp add: waitTimeouts_def waitSteps_def split: WaitStrategy.splits)

lemma waitTimeouts_orchestrationSteps:
  "set (waitTimeouts (orchestrationSteps eng gc images hs c ir)) = {startupTimeout gc}"
proof -
  have three: "waitTimeouts [(CreateContainer q, o1), (ContainerStart c, o2), (ContainerInspect c, o3)] = []"
    for q o1 o2 o3
    by (simp add: waitTimeouts_def)
  show ?thesis
    unfolding orchestrationSteps_alt waitTimeouts_append waitTimeouts_claimed
      waitTimeouts_resolveSteps three
    by (simp add: waitTimeouts_waitSteps)
qed

lemma waitTimeouts_thrown:
  "set (waitTimeouts (pre @ [(ev, Threw e)])) \<subseteq> set (waitTimeouts (pre @ (ev, out) # rest))"
  by (auto simp: waitTimeouts_def)

text \<open>
  C4. The wait step of a builder runs the strategy that the last \<^verbatim>\<open>withWaitStrategy\<close>
  call set, and when there was no such call the composite of a host-port check and an
  internal-port check; a run of \<open>start\<close> that returns a handle ends with the wait calls
  of that strategy. The composite is ready exactly when the poll of the host-port check
  and then the poll of the internal-port check both report ready.
\<close>

theorem wait_strategy_selected:
  "waitForContainer eng (configured calls (newGenericContainer img tg)) c cs bp =
     waitUntilReady eng
       (if strategiesSet calls = []
        then HostPortWaitStrategy (HostPortCheck (host eng)) (InternalPortCheck c)
        else last (strategiesSet calls))
       (startupTimeout (configured calls (newGenericContainer img tg))) c cs bp \<and>
   (\<forall>h. start eng (configured calls (newGenericContainer img tg)) (tr0, w0) = (Inr h, (tr1, w1)) \<longrightarrow>
      (\<exists>before inspectResult.
         tr1 = before @
           waitSteps
             (if strategiesSet calls = []
              then HostPortWaitStrategy (HostPortCheck (host eng)) (InternalPortCheck (startedContainer h))
              else last (strategiesSet calls))
             (startupTimeout (configured calls (newGenericContainer img tg)))
             (startedContainer h) (ContainerState inspectResult) (startedBoundPorts h))) \<and>
   (waitUntilReady eng (HostPortWaitStrategy hc ic) t c cs bp (tr, w) = (Inr (), (tr', w')) \<longleftrightarrow>
     (\<exists>w1. pollCheck eng hc t c cs bp w = (True, w1) \<and> pollCheck eng ic t c cs bp w1 = (True, w') \<and>
        tr' = tr @ [(PollCheck hc t c cs bp, Returned Nothing),
                    (PollCheck ic t c cs bp, Returned Nothing)]))"
proof -
  let ?gc = "configured calls (newGenericContainer img tg)"
  have sel: "getWaitStrategy eng ?gc c =
      (if strategiesSet calls = []
        then HostPortWaitStrategy (HostPortCheck (host eng)) (InternalPortCheck c)
        else last (strategiesSet calls))" for c
    by (simp add: getWaitStrategy_def waitStrategy_configured getHost_def newGenericContainer_def)
  have 1: "waitForContainer eng ?gc c cs bp =
     waitUntilReady eng
       (if strategiesSet calls = []
        then HostPortWaitStrategy (HostPortCheck (host eng)) (InternalPortCheck c)
        else last (strategiesSet calls))
       (startupTimeout ?gc) c cs bp"
    by (simp only: waitForContainer_def sel)
  have 2: "\<exists>before inspectResult.
         tr1 = before @
           waitSteps
             (if strategiesSet calls = []
              then HostPortWaitStrategy (HostPortCheck (host eng)) (InternalPortCheck (startedContainer h))
              else last (strategiesSet calls))
             (startupTimeout ?gc)
             (startedContainer h) (ContainerState inspectResult) (startedBoundPorts h)"
    if run: "start eng ?gc (tr0, w0) = (Inr h, (tr1, w1))" for h
  proof -
    from start_run[OF run] obtain images hs c ir where
      t: "tr1 = tr0 @ orchestrationSteps eng ?gc images hs c ir" and
      h: "h = handleOf eng ?gc hs c ir" by auto
    have "tr1 = (tr0 @ resolveSteps ?gc images @ claimed (ports ?gc) hs @
        [(CreateContainer (requestOf ?gc (boundPortsOf (ports ?gc) hs)), Returned (AContainer c)),
         (ContainerStart c, Returned Nothing),
         (ContainerInspect c, Returned (AnInspectResult ir))]) @
        waitSteps (getWaitStrategy eng ?gc c) (startupTimeout ?gc) c (ContainerState ir)
          (boundPortsOf (ports ?gc) hs)"
      by (simp add: t orchestrationSteps_alt)
    then have "tr1 = (tr0 @ resolveSteps ?gc images @ claimed (ports ?gc) hs @
        [(CreateContainer (requestOf ?gc (boundPortsOf (ports ?gc) hs)), Returned (AContainer c)),
         (ContainerStart c, Returned Nothing),
         (ContainerInspect c, Returned (AnInspectResult ir))]) @
        waitSteps (if strategiesSet calls = []
              then HostPortWaitStrategy (HostPortCheck (host eng)) (InternalPortCheck (startedContainer h))
              else last (strategiesSet calls)) (startupTimeout ?gc) (startedContainer h)
          (ContainerState ir) (startedBoundPorts h)"
      by (simp add: sel h handleOf_def)
    then show ?thesis by (intro exI)
  qed
  show ?thesis
  proof (intro conjI allI impI)
    show "waitForContainer eng ?gc c cs bp =
     waitUntilReady eng
       (if strategiesSet calls = []
        then HostPortWaitStrategy (HostPortCheck (host eng)) (InternalPortCheck c)
        else last (strategiesSet calls))
       (startupTimeout ?gc) c cs bp" by (rule 1)
  next
    fix h assume "start eng ?gc (tr0, w0) = (Inr h, (tr1, w1))"
    then show "\<exists>before inspectResult.
         tr1 = before @
           waitSteps
             (if strategiesSet calls = []
              then HostPortWaitStrategy (HostPortCheck (host eng)) (InternalPortCheck (startedContainer h))
              else last (strategiesSet calls))
             (startupTimeout ?gc)
             (startedContainer h) (ContainerState inspectResult) (startedBoundPorts h)"
      by (rule 2)
  next
    show "waitUntilReady eng (HostPortWaitStrategy hc ic) t c cs bp (tr, w) = (Inr (), (tr', w')) \<longleftrightarrow>
     (\<exists>w1. pollCheck eng hc t c cs bp w = (True, w1) \<and> pollCheck eng ic t c cs bp w1 = (True, w') \<and>
        tr' = tr @ [(PollCheck hc t c cs bp, Returned Nothing),
                    (PollCheck ic t c cs bp, Returned Nothing)])"
      by (rule composite_ready)
  qed
qed

theorem wait_strategy_selected_witness:
  "waitForContainer demoEngine
     (configured [WithWaitStrategy (CallerWaitStrategy ''log'')] (newGenericContainer ''redis'' None))
     (Container ''c1'') (ContainerState \<lparr>inspectName = ''/web''\<rparr>) demoBoundPorts =
   waitUntilReady demoEngine (CallerWaitStrategy ''log'') (Duration 60000 MILLISECONDS)
     (Container ''c1'') (ContainerState \<lparr>inspectName = ''/web''\<rparr>) demoBoundPorts \<and>
   waitForContainer demoEngine (configured [] (newGenericContainer ''redis'' None))
     (Container ''c1'') (ContainerState \<lparr>inspectName = ''/web''\<rparr>) demoBoundPorts =
   waitUntilReady demoEngine
     (HostPortWaitStrategy (HostPortCheck ''localhost'') (InternalPortCheck (Container ''c1'')))
     (Duration 60000 MILLISECONDS)
     (Container ''c1'') (ContainerState \<lparr>inspectName = ''/web''\<rparr>) demoBoundPorts"
  using conjunct1[OF wait_strategy_selected[of demoEngine "[WithWaitStrategy (CallerWaitStrategy ''log'')]"
      "''redis''" None "Container ''c1''" "ContainerState \<lparr>inspectName = ''/web''\<rparr>" demoBoundPorts]]
    conjunct1[OF wait_strategy_selected[of demoEngine "[]"
      "''redis''" None "Container ''c1''" "ContainerState \<lparr>inspectName = ''/web''\<rparr>" demoBoundPorts]]
  by (simp add: strategiesSet_def configured_def newGenericContainer_def withWaitStrategy_def
      demoEngine_def)

lemma wait_timeouts_in_trace:
  assumes "start eng (configured calls (newGenericContainer img tg)) (tr, w) = (r, (tr', w'))"
  shows "\<exists>made. tr' = tr @ made \<and>
           set (waitTimeouts made) \<subseteq>
             {if timeoutsSet calls = [] then Duration 60000 MILLISECONDS else last (timeoutsSet calls)} \<and>
           (\<forall>h. r = Inr h \<longrightarrow> waitTimeouts made \<noteq> []) \<and>
           inMilliseconds (Duration 60000 MILLISECONDS) = 60 * 1000"
proof -
  let ?gc = "configured calls (newGenericContainer img tg)"
  let ?d = "if timeoutsSet calls = [] then Duration 60000 MILLISECONDS else last (timeoutsSet calls)"
  have d: "startupTimeout ?gc = ?d"
    by (simp add: startupTimeout_configured newGenericContainer_def)
  from start_run[OF assms] obtain images hs c ir where
    run: "(case r of
              Inr h \<Rightarrow> tr' = tr @ orchestrationSteps eng ?gc images hs c ir \<and>
                       h = handleOf eng ?gc hs c ir
            | Inl e \<Rightarrow> \<exists>pre ev out rest.
                         orchestrationSteps eng ?gc images hs c ir = pre @ (ev, out) # rest \<and>
                         tr' = tr @ pre @ [(ev, Threw e)])" by blast
  have full: "set (waitTimeouts (orchestrationSteps eng ?gc images hs c ir)) = {?d}"
    using waitTimeouts_orchestrationSteps[of eng ?gc images hs c ir] d by simp
  show ?thesis
  proof (cases r)
    case (Inr h)
    with run have t: "tr' = tr @ orchestrationSteps eng ?gc images hs c ir" by simp
    from full have "waitTimeouts (orchestrationSteps eng ?gc images hs c ir) \<noteq> []" by auto
    with t full show ?thesis
      by (intro exI[of _ "orchestrationSteps eng ?gc images hs c ir"]) simp
  next
    case (Inl e)
    with run obtain pre ev out rest where
      f: "orchestrationSteps eng ?gc images hs c ir = pre @ (ev, out) # rest" and
      t: "tr' = tr @ pre @ [(ev, Threw e)]" by auto
    have "set (waitTimeouts (pre @ [(ev, Threw e)])) \<subseteq> {?d}"
      using waitTimeouts_thrown[of pre ev e out rest] full f by simp
    with t Inl show ?thesis
      by (intro exI[of _ "pre @ [(ev, Threw e)]"]) simp
  qed
qed

text \<open>
  C5. Once the steps before it have succeeded, \<open>start\<close> runs the wait of the selected
  strategy with the startup timeout of the builder, in the world the inspection left, and
  its outcome is the outcome of \<open>start\<close>. That timeout is 60000 milliseconds, which is 60
  seconds, when \<^verbatim>\<open>withStartupTimeout\<close> was never called on the builder, and otherwise the
  duration of the last such call. No wait call of the run is given another timeout.
\<close>

theorem startup_timeout_default:
  assumes "gc = configured calls (newGenericContainer img tg)"
    and "pullIfAbsent eng gc s = (Inr u1, s1)"
    and "PortBinder_bind eng (ports gc) s1 = (Inr boundPorts, s2)"
    and "client_create eng
           \<lparr>optRepoTag = repoTag gc, optEnv = env gc, optCmd = cmd gc,
            optBindMounts = bindMounts gc, optTmpFs = tmpFs gc,
            optBoundPorts = boundPorts, optName = name gc\<rparr> s2 = (Inr container, s3)"
    and "client_start eng container s3 = (Inr u4, s4)"
    and "inspect eng container s4 = (Inr inspectResult, s5)"
  shows "start eng gc s =
           (case waitUntilReady eng (getWaitStrategy eng gc container)
                   (if timeoutsSet calls = [] then Duration 60000 MILLISECONDS
                    else last (timeoutsSet calls))
                   container (ContainerState inspectResult) boundPorts s5 of
              (Inl e, s6) \<Rightarrow> (Inl e, s6)
            | (Inr u, s6) \<Rightarrow>
                (Inr \<lparr>startedContainer = container, startedHost = host eng,
                      startedBoundPorts = boundPorts,
                      startedName = inspectName inspectResult\<rparr>, s6)) \<and>
         inMilliseconds (Duration 60000 MILLISECONDS) = 60 * 1000 \<and>
         (\<forall>tr w r tr' w'. s = (tr, w) \<and> start eng gc s = (r, (tr', w')) \<longrightarrow>
            (\<exists>made. tr' = tr @ made \<and>
               set (waitTimeouts made) \<subseteq>
                 {if timeoutsSet calls = [] then Duration 60000 MILLISECONDS
                  else last (timeoutsSet calls)} \<and>
               (\<forall>h. r = Inr h \<longrightarrow> waitTimeouts made \<noteq> [])))"
proof (intro conjI allI impI)
  have d: "startupTimeout gc =
      (if timeoutsSet calls = [] then Duration 60000 MILLISECONDS else last (timeoutsSet calls))"
    by (simp add: assms(1) startupTimeout_configured newGenericContainer_def)
  show "start eng gc s =
           (case waitUntilReady eng (getWaitStrategy eng gc container)
                   (if timeoutsSet calls = [] then Duration 60000 MILLISECONDS
                    else last (timeoutsSet calls))
                   container (ContainerState inspectResult) boundPorts s5 of
              (Inl e, s6) \<Rightarrow> (Inl e, s6)
            | (Inr u, s6) \<Rightarrow>
                (Inr \<lparr>startedContainer = container, startedHost = host eng,
                      startedBoundPorts = boundPorts,
                      startedName = inspectName inspectResult\<rparr>, s6))"
    unfolding d[symmetric]
    by (simp add: start_def await_run assms(2-6) waitForContainer_def resolve_def getHost_def
        split: prod.splits sum.splits)
next
  show "inMilliseconds (Duration 60000 MILLISECONDS) = 60 * 1000" by simp
next
  fix tr w r tr' w'
  assume a: "s = (tr, w) \<and> start eng gc s = (r, (tr', w'))"
  then have "start eng (configured calls (newGenericContainer img tg)) (tr, w) = (r, (tr', w'))"
    using assms(1) by auto
  from wait_timeouts_in_trace[OF this]
  show "\<exists>made. tr' = tr @ made \<and>
               set (waitTimeouts made) \<subseteq>
                 {if timeoutsSet calls = [] then Duration 60000 MILLISECONDS
                  else last (timeoutsSet calls)} \<and>
               (\<forall>h. r = Inr h \<longrightarrow> waitTimeouts made \<noteq> [])"
    by blast
qed

lemma demo_stages:
  "pullIfAbsent demoEngine gc ([], 0) = (Inr (), (take 2 demoTrace, 0))"
  "PortBinder_bind demoEngine (ports gc) (take 2 demoTrace, 0) = (Inr demoBoundPorts, (take 4 demoTrace, 2))"
  "client_create demoEngine
           \<lparr>optRepoTag = repoTag gc, optEnv = env gc, optCmd = cmd gc,
            optBindMounts = bindMounts gc, optTmpFs = tmpFs gc,
            optBoundPorts = demoBoundPorts, optName = name gc\<rparr> (take 4 demoTrace, 2) =
     (Inr (Container ''c1''), (take 5 demoTrace, 2))"
  "client_start demoEngine (Container ''c1'') (take 5 demoTrace, 2) = (Inr (), (take 6 demoTrace, 2))"
  "inspect demoEngine (Container ''c1'') (take 6 demoTrace, 2) =
     (Inr \<lparr>inspectName = ''/web''\<rparr>, (take 7 demoTrace, 2))"
  if "gc = demoContainer \<or> gc = timedContainer" for gc
  using that by (auto simp: run_defs demo_defs timedContainer_def)

theorem startup_timeout_default_witness:
  "start demoEngine demoContainer ([], 0) = (Inr demoHandle, (demoTrace, 2)) \<and>
   waitTimeouts demoTrace = [Duration 60000 MILLISECONDS, Duration 60000 MILLISECONDS] \<and>
   start demoEngine timedContainer ([], 0) = (Inr demoHandle, (timedTrace, 2)) \<and>
   waitTimeouts timedTrace = [Duration 5 SECONDS, Duration 5 SECONDS]"
proof -
  have g1: "demoContainer = configured [WithExposedPorts [80, 443]] (newGenericContainer ''redis'' None)"
    by (simp add: demoContainer_def)
  have g2: "timedContainer =
      configured [WithExposedPorts [80, 443], WithStartupTimeout (Duration 5 SECONDS)]
        (newGenericContainer ''redis'' None)"
    by (simp add: timedContainer_def)
  have 1: "start demoEngine demoContainer ([], 0) = (Inr demoHandle, (demoTrace, 2))"
    using conjunct1[OF startup_timeout_default[OF g1 demo_stages[of demoContainer]]]
    by (simp add: run_defs demo_defs timeoutsSet_def)
  have 2: "start demoEngine timedContainer ([], 0) = (Inr demoHandle, (timedTrace, 2))"
    using conjunct1[OF startup_timeout_default[OF g2 demo_stages[of timedContainer]]]
    by (simp add: run_defs demo_defs timeoutsSet_def timedContainer_def timedTrace_def)
  have 3: "waitTimeouts demoTrace = [Duration 60000 MILLISECONDS, Duration 60000 MILLISECONDS]"
    by (simp add: waitTimeouts_def demoTrace_def)
  have 4: "waitTimeouts timedTrace = [Duration 5 SECONDS, Duration 5 SECONDS]"
    by (simp add: waitTimeouts_def demoTrace_def timedTrace_def)
  from 1 2 3 4 show ?thesis by (simp only: simp_thms)
qed

section \<open>The started handle\<close>

lemma map_of_bindings:
  "map_of (foldl (\<lambda>bp (p, h). setBinding p h bp) acc xs) = map_of acc ++ map_of (rev xs)"
proof (induction xs arbitrary: acc)
  case Nil
  then show ?case by simp
next
  case (Cons x xs)
  obtain p h where x: "x = (p, h)" by (cases x)
  have "map_of (foldl (\<lambda>bp (p, h). setBinding p h bp) acc (x # xs)) =
      map_of (setBinding p h acc) ++ map_of (rev xs)"
    using Cons.IH[of "setBinding p h acc"] x by simp
  also have "map_of (setBinding p h acc) = (map_of acc)(p \<mapsto> h)"
    by (simp add: setBinding_def update_conv')
  also have "(map_of acc)(p \<mapsto> h) ++ map_of (rev xs) = map_of acc ++ map_of (rev (x # xs))"
    using x by (simp add: map_add_upd_left fun_eq_iff map_add_def split: option.splits)
  finally show ?case .
qed

lemma boundPortsOf_lookup: "map_of (boundPortsOf ps hs) = map_of (rev (zip ps hs))"
  by (simp add: boundPortsOf_def map_of_bindings)

lemma getBinding_unrequested:
  "p \<notin> set ps \<Longrightarrow> getBinding (boundPortsOf ps hs) p = Inl NotBoundError"
proof -
  assume "p \<notin> set ps"
  then have "p \<notin> fst ` set (rev (zip ps hs))" by (auto dest: set_zip_leftD)
  then have "map_of (rev (zip ps hs)) p = None" by (simp add: map_of_eq_None_iff)
  then show ?thesis by (simp add: getBinding_def boundPortsOf_lookup)
qed

lemma getBinding_requested:
  assumes "p \<in> set ps" "length hs = length ps"
  shows "\<exists>h. getBinding (boundPortsOf ps hs) p = Inr h \<and> (p, h) \<in> set (zip ps hs)"
proof -
  from assms have "p \<in> fst ` set (rev (zip ps hs))"
    by (metis map_fst_zip set_map set_rev)
  then obtain h where h: "map_of (rev (zip ps hs)) p = Some h"
    by (metis map_of_eq_None_iff not_Some_eq)
  then have "(p, h) \<in> set (zip ps hs)" by (auto dest: map_of_SomeD)
  with h show ?thesis by (auto simp: getBinding_def boundPortsOf_lookup)
qed

lemma claimed_entry: "(p, h) \<in> set (zip ps hs) \<Longrightarrow> (ClaimFreePort p, Returned (APort h)) \<in> set (claimed ps hs)"
  by (force simp: claimed_def)

text \<open>
  C9. On the handle that \<open>start\<close> returned, \<open>getMappedPort\<close> of a port that was not among
  the exposed ports fails with NotBoundError; of an exposed port it returns a host port
  that the run claimed for that port, and when the exposed ports are distinct that is the
  one host port claimed for it.
\<close>

theorem mapped_port_of_started:
  assumes "start eng gc (tr, w) = (Inr h, (tr', w'))"
  shows "(\<forall>p. p \<notin> set (ports gc) \<longrightarrow> getMappedPort h p = Inl NotBoundError) \<and>
         (\<forall>p \<in> set (ports gc). \<exists>hostPort. getMappedPort h p = Inr hostPort \<and>
            (ClaimFreePort p, Returned (APort hostPort)) \<in> set (drop (length tr) tr')) \<and>
         (distinct (ports gc) \<longrightarrow>
            (\<forall>p claimedPort. (ClaimFreePort p, Returned (APort claimedPort)) \<in> set (drop (length tr) tr') \<longrightarrow>
               getMappedPort h p = Inr claimedPort))"
proof -
  from start_run[OF assms] obtain images hs c ir where len: "length hs = length (ports gc)"
    and t: "tr' = tr @ orchestrationSteps eng gc images hs c ir"
    and h: "h = handleOf eng gc hs c ir" by auto
  have bp: "getMappedPort h p = getBinding (boundPortsOf (ports gc) hs) p" for p
    by (simp add: getMappedPort_def h handleOf_def)
  have "getMappedPort h p = Inl NotBoundError" if "p \<notin> set (ports gc)" for p
    using that by (simp add: bp getBinding_unrequested)
  moreover have "\<exists>hostPort. getMappedPort h p = Inr hostPort \<and>
            (ClaimFreePort p, Returned (APort hostPort)) \<in> set (drop (length tr) tr')"
    if "p \<in> set (ports gc)" for p
  proof -
    from getBinding_requested[OF that len] obtain hp where
      "getBinding (boundPortsOf (ports gc) hs) p = Inr hp" "(p, hp) \<in> set (zip (ports gc) hs)"
      by blast
    then show ?thesis
      using claimed_entry[of p hp "ports gc" hs]
      by (auto simp: bp t orchestrationSteps_alt)
  qed
  moreover have "getMappedPort h p = Inr claimedPort"
    if d: "distinct (ports gc)" and
      e: "(ClaimFreePort p, Returned (APort claimedPort)) \<in> set (drop (length tr) tr')"
    for p claimedPort
  proof -
    from e have "(ClaimFreePort p, Returned (APort claimedPort)) \<in> set (claimed (ports gc) hs)"
      by (auto simp: t orchestrationSteps_alt resolveSteps_def waitSteps_def
          split: if_splits WaitStrategy.splits)
    then have z: "(p, claimedPort) \<in> set (zip (ports gc) hs)"
      by (auto simp: claimed_def)
    then have "p \<in> set (ports gc)" by (rule set_zip_leftD)
    from getBinding_requested[OF this len] obtain hp where
      g: "getBinding (boundPortsOf (ports gc) hs) p = Inr hp" and
      z': "(p, hp) \<in> set (zip (ports gc) hs)" by blast
    have "distinct (map fst (zip (ports gc) hs))" using d len by simp
    from eq_key_imp_eq_value[OF this z z'] g show ?thesis by (simp add: bp)
  qed
  ultimately show ?thesis by blast
qed

theorem mapped_port_of_started_witness:
  "start demoEngine demoContainer ([], 0) = (Inr demoHandle, (demoTrace, 2)) \<and>
   ports demoContainer = [80, 443] \<and>
   getMappedPort demoHandle 8080 = Inl NotBoundError \<and>
   getMappedPort demoHandle 80 = Inr 32768 \<and>
   getMappedPort demoHandle 443 = Inr 32769"
  using demo_start mapped_port_of_started[OF demo_start]
  by (simp add: getMappedPort_def getBinding_def demo_defs run_defs)

section \<open>The creation request\<close>













section \<open>The list of known images\<close>

lemma split_no_separator: "sep \<notin> set s \<Longrightarrow> split sep s = [s]"
  by (induction s) auto

lemma split_at_separator: "sep \<notin> set a \<Longrightarrow> split sep (a @ sep # b) = a # split sep b"
  by (induction a) auto

lemma repoTagOfString_pair:
  "CHR '':'' \<notin> set n \<Longrightarrow> CHR '':'' \<notin> set t \<Longrightarrow>
   repoTagOfString (n @ '':'' @ t) = \<lparr>imageName = Some n, tag = Some t\<rparr>"
  by (simp add: repoTagOfString_def split_at_separator split_no_separator element_def)

text \<open>
  Whatever the engine lists, \<open>fetchRepoTags\<close> returns without an error (the check of \<open>isDanglingImage\<close> keeps the reduction from
  calling \<^verbatim>\<open>map\<close> on \<^verbatim>\<open>null\<close>), and the list is the same with the dangling images
  removed: the references parsed from the strings of the tagged images.
\<close>

lemma fetchRepoTags_skips_dangling:
  assumes "listImages eng w = (Inr images, w1)"
  shows "fetchRepoTags eng (tr, w) =
           (Inr (repoTagsOfImages images), (tr @ [(ListImages, Returned (Images images))], w1)) \<and>
         reduce collectRepoTags [] images =
           reduce collectRepoTags [] (filter (\<lambda>img. \<not> isDanglingImage img) images) \<and>
         (\<forall>listed \<in> set (repoTagsOfImages images).
            \<exists>img imageRepoTags s. img \<in> set images \<and> RepoTags img = Some imageRepoTags \<and>
              s \<in> set imageRepoTags \<and> listed = repoTagOfString s)"
proof -
  have 1: "fetchRepoTags eng (tr, w) =
           (Inr (repoTagsOfImages images), (tr @ [(ListImages, Returned (Images images))], w1))"
    using assms
    by (simp add: fetchRepoTags_def await_run call_run resolve_def reduce_collectRepoTags)
  have "repoTagsOfImages images = repoTagsOfImages (filter (\<lambda>img. \<not> isDanglingImage img) images)"
    unfolding repoTagsOfImages_def by (induction images) (auto simp: isDanglingImage_def)
  then have 2: "reduce collectRepoTags [] images =
           reduce collectRepoTags [] (filter (\<lambda>img. \<not> isDanglingImage img) images)"
    by (simp add: reduce_collectRepoTags)
  have 3: "\<forall>listed \<in> set (repoTagsOfImages images).
            \<exists>img imageRepoTags s. img \<in> set images \<and> RepoTags img = Some imageRepoTags \<and>
              s \<in> set imageRepoTags \<and> listed = repoTagOfString s"
    unfolding repoTagsOfImages_def by (auto split: option.splits) metis
  from 1 2 3 show ?thesis by blast
qed

text \<open>
  C8. The dangling images are left out without an error (lemma
  \<open>fetchRepoTags_skips_dangling\<close>), but a listed entry is the reference of the tagged
  image only when its string has one colon: \<^verbatim>\<open>const [imageName, tag] = imageRepoTag.split(":")\<close>
  keeps the first two pieces. For the image \<^verbatim>\<open>localhost:5000/redis:latest\<close> (a registry
  with a port) the entry listed has the name \<^verbatim>\<open>localhost\<close> and the tag \<^verbatim>\<open>5000/redis\<close>,
  not the name \<^verbatim>\<open>localhost:5000/redis\<close> and the tag \<^verbatim>\<open>latest\<close>; the builder for that
  image, whose reference is written as the very string listed, is therefore not found
  among the known images. The dangling image of the same listing is skipped without an
  error.
\<close>

theorem registry_port_reference_misparsed:
  "repoTagOfString ''localhost:5000/redis:latest'' =
     \<lparr>imageName = Some ''localhost'', tag = Some ''5000/redis''\<rparr> \<and>
   fetchRepoTags registryEngine ([], 0) =
     (Inr [\<lparr>imageName = Some ''localhost'', tag = Some ''5000/redis''\<rparr>],
      ([(ListImages, Returned (Images registryImages))], 0)) \<and>
   repoTag registryContainer = \<lparr>imageName = Some ''localhost:5000/redis'', tag = Some ''latest''\<rparr> \<and>
   RepoTag_toString (repoTag registryContainer) = ''localhost:5000/redis:latest'' \<and>
   fst (hasRepoTagLocally registryEngine registryContainer ([], 0)) = Inr False"
  by (simp add: run_defs demo_defs registryImages_def registryEngine_def registryContainer_def)

section \<open>Stopping a started container\<close>

text \<open>
  C7. \<open>stop\<close> resolves its options by taking each key of the caller's options that is
  present and the default for a key that is missing; with the defaults of the
  specification that is the graceful-stop timeout and remove-volumes false. It calls the
  container's stop with the resolved timeout; when that throws, the error is the result
  and remove is not called. When it returned, \<open>stop\<close> calls the container's remove with
  the resolved remove-volumes in the world the stop left; its error is the result, and
  when it returned the result is the stopped-container marker.
\<close>

theorem stop_then_remove:
  "resolvedOptions defaults options =
     \<lparr>timeout = (case timeoutKey options of Missing \<Rightarrow> timeout defaults | Holds v \<Rightarrow> v),
      removeVolumes =
        (case removeVolumesKey options of Missing \<Rightarrow> removeVolumes defaults | Holds v \<Rightarrow> v)\<rparr> \<and>
   resolvedOptions (DEFAULT_STOP_OPTIONS gracefulStopTimeout) options =
     \<lparr>timeout = (case timeoutKey options of Missing \<Rightarrow> Some gracefulStopTimeout | Holds v \<Rightarrow> v),
      removeVolumes = (case removeVolumesKey options of Missing \<Rightarrow> Some False | Holds v \<Rightarrow> v)\<rparr> \<and>
   (containerStop eng (startedContainer h) (timeout (resolvedOptions defaults options)) w = (Inl e, w1) \<longrightarrow>
      stop eng defaults h options (tr, w) =
        (Inl e,
         (tr @ [(ContainerStop (startedContainer h) (timeout (resolvedOptions defaults options)),
                 Threw e)], w1))) \<and>
   (containerStop eng (startedContainer h) (timeout (resolvedOptions defaults options)) w = (Inr u, w1) \<and>
    containerRemove eng (startedContainer h) (removeVolumes (resolvedOptions defaults options)) w1 =
      (Inl e, w2) \<longrightarrow>
      stop eng defaults h options (tr, w) =
        (Inl e,
         (tr @ [(ContainerStop (startedContainer h) (timeout (resolvedOptions defaults options)),
                 Returned Nothing),
                (ContainerRemove (startedContainer h)
                   (removeVolumes (resolvedOptions defaults options)), Threw e)], w2))) \<and>
   (containerStop eng (startedContainer h) (timeout (resolvedOptions defaults options)) w = (Inr u, w1) \<and>
    containerRemove eng (startedContainer h) (removeVolumes (resolvedOptions defaults options)) w1 =
      (Inr u', w2) \<longrightarrow>
      stop eng defaults h options (tr, w) =
        (Inr StoppedGenericContainer,
         (tr @ [(ContainerStop (startedContainer h) (timeout (resolvedOptions defaults options)),
                 Returned Nothing),
                (ContainerRemove (startedContainer h)
                   (removeVolumes (resolvedOptions defaults options)), Returned Nothing)], w2)))"
proof (intro conjI impI)
  show "resolvedOptions defaults options =
     \<lparr>timeout = (case timeoutKey options of Missing \<Rightarrow> timeout defaults | Holds v \<Rightarrow> v),
      removeVolumes =
        (case removeVolumesKey options of Missing \<Rightarrow> removeVolumes defaults | Holds v \<Rightarrow> v)\<rparr>"
    by (simp add: resolvedOptions_def)
  show "resolvedOptions (DEFAULT_STOP_OPTIONS gracefulStopTimeout) options =
     \<lparr>timeout = (case timeoutKey options of Missing \<Rightarrow> Some gracefulStopTimeout | Holds v \<Rightarrow> v),
      removeVolumes = (case removeVolumesKey options of Missing \<Rightarrow> Some False | Holds v \<Rightarrow> v)\<rparr>"
    by (simp add: resolvedOptions_def DEFAULT_STOP_OPTIONS_def split: key.splits)
qed (simp_all add: stop_def Let_def await_run call_run resolve_def)

lemmas stop_defs = stop_def resolvedOptions_def DEFAULT_STOP_OPTIONS_def demoStopOptions_def
  failingStop_def failingRemove_def countingStop_def

theorem stop_then_remove_witness:
  "stop countingStop (DEFAULT_STOP_OPTIONS (Duration 10 SECONDS)) demoHandle demoStopOptions ([], 0) =
     (Inr StoppedGenericContainer,
      ([(ContainerStop (Container ''c1'') (Some (Duration 10 SECONDS)), Returned Nothing),
        (ContainerRemove (Container ''c1'') (Some True), Returned Nothing)], 110)) \<and>
   stop failingStop (DEFAULT_STOP_OPTIONS (Duration 10 SECONDS)) demoHandle demoStopOptions ([], 0) =
     (Inl (Error ''no such container''),
      ([(ContainerStop (Container ''c1'') (Some (Duration 10 SECONDS)),
         Threw (Error ''no such container''))], 0)) \<and>
   stop failingRemove (DEFAULT_STOP_OPTIONS (Duration 10 SECONDS)) demoHandle demoStopOptions ([], 0) =
     (Inl (Error ''removal in progress''),
      ([(ContainerStop (Container ''c1'') (Some (Duration 10 SECONDS)), Returned Nothing),
        (ContainerRemove (Container ''c1'') (Some True), Threw (Error ''removal in progress''))], 1)) \<and>
   resolvedOptions (DEFAULT_STOP_OPTIONS (Duration 10 SECONDS))
     \<lparr>timeoutKey = Missing, removeVolumesKey = Missing\<rparr> =
     \<lparr>timeout = Some (Duration 10 SECONDS), removeVolumes = Some False\<rparr>"
proof -
  note t = stop_then_remove[where defaults = "DEFAULT_STOP_OPTIONS (Duration 10 SECONDS)"
      and options = demoStopOptions and gracefulStopTimeout = "Duration 10 SECONDS"
      and h = demoHandle and w = 0 and tr = "[]"]
  have r: "resolvedOptions (DEFAULT_STOP_OPTIONS (Duration 10 SECONDS)) demoStopOptions =
      \<lparr>timeout = Some (Duration 10 SECONDS), removeVolumes = Some True\<rparr>"
    by (simp add: resolvedOptions_def DEFAULT_STOP_OPTIONS_def demoStopOptions_def)
  have c: "startedContainer demoHandle = Container ''c1''" by (simp add: demoHandle_def)
  have a1: "containerStop countingStop (Container ''c1'') (Some (Duration 10 SECONDS)) 0 = (Inr (), 10)"
    "containerRemove countingStop (Container ''c1'') (Some True) 10 = (Inr (), 110)"
    by (simp_all add: countingStop_def demoEngine_def)
  have a2: "containerStop failingStop (Container ''c1'') (Some (Duration 10 SECONDS)) 0 =
      (Inl (Error ''no such container''), 0)"
    by (simp add: failingStop_def demoEngine_def)
  have a3: "containerStop failingRemove (Container ''c1'') (Some (Duration 10 SECONDS)) 0 = (Inr (), 0)"
    "containerRemove failingRemove (Container ''c1'') (Some True) 0 =
       (Inl (Error ''removal in progress''), 1)"
    by (simp_all add: failingRemove_def demoEngine_def)
  have 1: "stop countingStop (DEFAULT_STOP_OPTIONS (Duration 10 SECONDS)) demoHandle demoStopOptions ([], 0) =
     (Inr StoppedGenericContainer,
      ([(ContainerStop (Container ''c1'') (Some (Duration 10 SECONDS)), Returned Nothing),
        (ContainerRemove (Container ''c1'') (Some True), Returned Nothing)], 110))"
    using t[where eng = countingStop and ?w1.0 = 10 and ?w2.0 = 110] a1 by (simp add: r c)
  have 2: "stop failingStop (DEFAULT_STOP_OPTIONS (Duration 10 SECONDS)) demoHandle demoStopOptions ([], 0) =
     (Inl (Error ''no such container''),
      ([(ContainerStop (Container ''c1'') (Some (Duration 10 SECONDS)),
         Threw (Error ''no such container''))], 0))"
    using t[where eng = failingStop and e = "Error ''no such container''" and ?w1.0 = 0] a2 by (simp add: r c)
  have 3: "stop failingRemove (DEFAULT_STOP_OPTIONS (Duration 10 SECONDS)) demoHandle demoStopOptions ([], 0) =
     (Inl (Error ''removal in progress''),
      ([(ContainerStop (Container ''c1'') (Some (Duration 10 SECONDS)), Returned Nothing),
        (ContainerRemove (Container ''c1'') (Some True), Threw (Error ''removal in progress''))], 1))"
    using t[where eng = failingRemove and e = "Error ''removal in progress''" and ?w1.0 = 0
        and ?w2.0 = 1] a3 by (simp add: r c)
  have 4: "resolvedOptions (DEFAULT_STOP_OPTIONS (Duration 10 SECONDS))
     \<lparr>timeoutKey = Missing, removeVolumesKey = Missing\<rparr> =
     \<lparr>timeout = Some (Duration 10 SECONDS), removeVolumes = Some False\<rparr>"
    by (simp add: resolvedOptions_def DEFAULT_STOP_OPTIONS_def)
  from 1 2 3 4 show ?thesis by (simp only: simp_thms)
qed

section \<open>Building an image\<close>

lemmas build_defs = build_def generate_def client_buildImage_def withBuildArg_def
  fromDockerfile_def newGenericContainerBuilder_def demoBuilder_def repeatingBuilder_def
  listingRepeated_def repeatedTrace_def
  failingBuild_def listingBuilt_def unlistedTrace_def failedBuildTrace_def listedTrace_def

lemma demo_build_unlisted:
  "build demoEngine demoBuilder ([], 0) = (Inl (Error ''Failed to build image''), (unlistedTrace, 2))"
  by (simp add: build_defs run_defs demo_defs)

lemma demo_build_failed:
  "build failingBuild demoBuilder ([], 0) = (Inl (Error ''Failed to build image''), (failedBuildTrace, 2))"
  by (simp add: build_defs run_defs demo_defs)

lemma demo_build_listed:
  "build listingBuilt demoBuilder ([], 0) = (Inr (newGenericContainer ''a'' (Some ''aa'')), (listedTrace, 2))"
  by (simp add: build_defs run_defs demo_defs)

lemma demo_build_repeated:
  "build listingRepeated repeatingBuilder ([], 0) =
     (Inr (newGenericContainer ''x'' (Some ''x'')), (repeatedTrace, 0))"
  by (simp add: build_defs run_defs demo_defs)

lemma build_generated:
  assumes "uuid b w = (img, w1)" and "uuid b w1 = (tg, w2)"
  shows "build eng b (tr, w) =
      (case call (BuildImageStream (buildContext b) (buildArgs b) (img @ '':'' @ tg)) (\<lambda>_. Nothing)
              (buildImageStream eng (buildContext b) (buildArgs b) (img @ '':'' @ tg))
              (tr @ [(NextUuid, Returned (AUuid img)), (NextUuid, Returned (AUuid tg))], w2) of
         (Inl e, s) \<Rightarrow> (Inl e, s)
       | (Inr u, s) \<Rightarrow>
           (case hasRepoTagLocally eng (newGenericContainer img (Some tg)) s of
              (Inl e, s') \<Rightarrow> (Inl e, s')
            | (Inr listed, s') \<Rightarrow>
                (if \<not> listed then (Inl (Error ''Failed to build image''), s')
                 else (Inr (newGenericContainer img (Some tg)), s'))))"
proof -
  have rt: "RepoTag_toString \<lparr>imageName = Some img, tag = Some tg\<rparr> = img @ '':'' @ tg"
    by (simp add: RepoTag_toString_def templateString_def)
  show ?thesis
    using assms
    by (simp add: build_def generate_def await_run call_run client_buildImage_def rt throw_def
        resolve_def split: prod.splits sum.splits)
qed

text \<open>
  C6, as the code has it. \<open>build\<close> takes two identifiers from the generator of the
  builder, the first as the image name and the second as the tag; the generator is the
  one the builder was constructed with, the random one when none was given. It requests
  from the collaborator the build of that reference with the configured context and
  build arguments and, when that returned, lists the images. When no listed reference has
  the generated name and tag, the result is \<^verbatim>\<open>new Error("Failed to build image")\<close> and no
  container; otherwise a new container for the generated reference. A failure of the
  build call or of the listing is the result, and nothing is called after it.
\<close>

theorem build_verifies_listing:
  assumes "uuid b w = (img, w1)" and "uuid b w1 = (tg, w2)"
  shows "uuid (fromDockerfile eng ctx) = nextUuid eng \<and>
         uuid (newGenericContainerBuilder eng ctx (Some generator)) = generator \<and>
         (buildImageStream eng (buildContext b) (buildArgs b) (img @ '':'' @ tg) w2 = (Inl e, w3) \<longrightarrow>
            build eng b (tr, w) =
              (Inl e,
               (tr @ [(NextUuid, Returned (AUuid img)), (NextUuid, Returned (AUuid tg)),
                      (BuildImageStream (buildContext b) (buildArgs b) (img @ '':'' @ tg), Threw e)],
                w3))) \<and>
         (buildImageStream eng (buildContext b) (buildArgs b) (img @ '':'' @ tg) w2 = (Inr u, w3) \<and>
          listImages eng w3 = (Inl e, w4) \<longrightarrow>
            build eng b (tr, w) =
              (Inl e,
               (tr @ [(NextUuid, Returned (AUuid img)), (NextUuid, Returned (AUuid tg)),
                      (BuildImageStream (buildContext b) (buildArgs b) (img @ '':'' @ tg),
                         Returned Nothing),
                      (ListImages, Threw e)],
                w4))) \<and>
         (buildImageStream eng (buildContext b) (buildArgs b) (img @ '':'' @ tg) w2 = (Inr u, w3) \<and>
          listImages eng w3 = (Inr images, w4) \<longrightarrow>
            build eng b (tr, w) =
              (if \<exists>known \<in> set (repoTagsOfImages images).
                    imageName known = Some img \<and> tag known = Some tg
               then Inr (newGenericContainer img (Some tg))
               else Inl (Error ''Failed to build image''),
               (tr @ [(NextUuid, Returned (AUuid img)), (NextUuid, Returned (AUuid tg)),
                      (BuildImageStream (buildContext b) (buildArgs b) (img @ '':'' @ tg),
                         Returned Nothing),
                      (ListImages, Returned (Images images))],
                w4)))"
proof (intro conjI impI)
  show "uuid (fromDockerfile eng ctx) = nextUuid eng"
    by (simp add: fromDockerfile_def newGenericContainerBuilder_def)
  show "uuid (newGenericContainerBuilder eng ctx (Some generator)) = generator"
    by (simp add: newGenericContainerBuilder_def)
  have rp: "repoTag (newGenericContainer img (Some tg)) = \<lparr>imageName = Some img, tag = Some tg\<rparr>"
    by (simp add: newGenericContainer_def)
  note step = build_generated[OF assms]
  {
    assume "buildImageStream eng (buildContext b) (buildArgs b) (img @ '':'' @ tg) w2 = (Inl e, w3)"
    then show "build eng b (tr, w) =
              (Inl e,
               (tr @ [(NextUuid, Returned (AUuid img)), (NextUuid, Returned (AUuid tg)),
                      (BuildImageStream (buildContext b) (buildArgs b) (img @ '':'' @ tg), Threw e)],
                w3))"
      by (simp add: step call_run)
  next
    assume "buildImageStream eng (buildContext b) (buildArgs b) (img @ '':'' @ tg) w2 = (Inr u, w3) \<and>
          listImages eng w3 = (Inl e, w4)"
    then show "build eng b (tr, w) =
              (Inl e,
               (tr @ [(NextUuid, Returned (AUuid img)), (NextUuid, Returned (AUuid tg)),
                      (BuildImageStream (buildContext b) (buildArgs b) (img @ '':'' @ tg),
                         Returned Nothing),
                      (ListImages, Threw e)],
                w4))"
      by (simp add: step call_run hasRepoTagLocally_run)
  next
    assume "buildImageStream eng (buildContext b) (buildArgs b) (img @ '':'' @ tg) w2 = (Inr u, w3) \<and>
          listImages eng w3 = (Inr images, w4)"
    then show "build eng b (tr, w) =
              (if \<exists>known \<in> set (repoTagsOfImages images).
                    imageName known = Some img \<and> tag known = Some tg
               then Inr (newGenericContainer img (Some tg))
               else Inl (Error ''Failed to build image''),
               (tr @ [(NextUuid, Returned (AUuid img)), (NextUuid, Returned (AUuid tg)),
                      (BuildImageStream (buildContext b) (buildArgs b) (img @ '':'' @ tg),
                         Returned Nothing),
                      (ListImages, Returned (Images images))],
                w4))"
      by (auto simp: step call_run hasRepoTagLocally_run rp list_ex_iff equals_def)
  }
qed

theorem build_verifies_listing_witness:
  "uuid demoBuilder 0 = (''a'', 1) \<and> uuid demoBuilder 1 = (''aa'', 2) \<and>
   build listingBuilt demoBuilder ([], 0) =
     (Inr (newGenericContainer ''a'' (Some ''aa'')), (listedTrace, 2)) \<and>
   build demoEngine demoBuilder ([], 0) =
     (Inl (Error ''Failed to build image''), (unlistedTrace, 2)) \<and>
   build failingBuild demoBuilder ([], 0) =
     (Inl (Error ''Failed to build image''), (failedBuildTrace, 2))"
proof -
  have u: "uuid demoBuilder 0 = (''a'', 1)" "uuid demoBuilder 1 = (''aa'', 2)"
    by (simp_all add: build_defs demoEngine_def)
  note t = build_verifies_listing[OF u, where tr = "[]"]
  have b: "buildContext demoBuilder = ''./app''" "buildArgs demoBuilder = [(''VERSION'', ''1'')]"
    by (simp_all add: build_defs)
  have 1: "build listingBuilt demoBuilder ([], 0) =
     (Inr (newGenericContainer ''a'' (Some ''aa'')), (listedTrace, 2))"
    using t[where eng = listingBuilt and ?w3.0 = 2 and ?w4.0 = 2
        and images = "[\<lparr>RepoTags = Some [''a:aa'']\<rparr>]"]
    by (simp add: b listingBuilt_def demoEngine_def listedTrace_def repoTagsOfImages_def
        repoTagOfString_def element_def)
  have 2: "build demoEngine demoBuilder ([], 0) =
     (Inl (Error ''Failed to build image''), (unlistedTrace, 2))"
    using t[where eng = demoEngine and ?w3.0 = 2 and ?w4.0 = 2 and images = demoImages]
    by (simp add: b demoEngine_def unlistedTrace_def repoTagsOfImages_def demoImages_def
        repoTagOfString_def element_def)
  have 3: "build failingBuild demoBuilder ([], 0) =
     (Inl (Error ''Failed to build image''), (failedBuildTrace, 2))"
    using t[where eng = failingBuild and ?w3.0 = 2 and e = "Error ''Failed to build image''"]
    by (simp add: b failingBuild_def demoEngine_def failedBuildTrace_def)
  from u 1 2 3 show ?thesis by (simp only: simp_thms)
qed

text \<open>
  C6 as stated fails on the code in two places. It says that the failure is of a kind of
  its own: the engine of \<open>failingBuild\<close> throws \<^verbatim>\<open>Error("Failed to build image")\<close> from
  the build call, a collaborator failure, and \<open>build\<close> returns the very error it returns
  when the build call succeeded and the image is not listed. And it says that \<open>build\<close>
  generates two fresh random unique identifiers: the identifiers are those of the
  generator passed to the constructor, and with a generator that always returns
  \<^verbatim>\<open>x\<close> the image built and returned is \<^verbatim>\<open>x:x\<close>.
\<close>

theorem build_error_kind_counterexample:
  "fst (build demoEngine demoBuilder ([], 0)) = Inl (Error ''Failed to build image'') \<and>
   fst (snd (build demoEngine demoBuilder ([], 0))) = unlistedTrace \<and>
   fst (build failingBuild demoBuilder ([], 0)) = Inl (Error ''Failed to build image'') \<and>
   fst (snd (build failingBuild demoBuilder ([], 0))) = failedBuildTrace \<and>
   fst (build demoEngine demoBuilder ([], 0)) = fst (build failingBuild demoBuilder ([], 0)) \<and>
   uuid repeatingBuilder 0 = (''x'', 0) \<and>
   build listingRepeated repeatingBuilder ([], 0) =
     (Inr (newGenericContainer ''x'' (Some ''x'')), (repeatedTrace, 0))"
proof -
  have "uuid repeatingBuilder 0 = (''x'', 0)"
    by (simp add: repeatingBuilder_def newGenericContainerBuilder_def)
  then show ?thesis
    by (simp add: demo_build_unlisted demo_build_failed demo_build_repeated)
qed

end
